theory Spec2Isabelle
  imports Complex_Main "HOL-Library.Sublist"
begin

section \<open>Messages, errors and the external collaborators\<close>

text \<open>
  The repository holds the same debate engine twice: \<^verbatim>\<open>main.py\<close> (command line) and
  \<^verbatim>\<open>streamlit_debate.py\<close> (form based). The two differ in the wording of the instruction
  of \<^verbatim>\<open>SpeakAloud.run\<close>, and the second keeps a per-round log, a research log and asks an
  advisor at the end. A value of \<open>src_file\<close> says which file a definition follows where
  they differ.
\<close>

datatype src_file = MainPy | StreamlitPy

text \<open>The \<^verbatim>\<open>cause_by\<close> tags that occur: a message is caused by the user or by \<^verbatim>\<open>SpeakAloud\<close>.\<close>

datatype action = UserRequirement | SpeakAloud

text \<open>
  \<^verbatim>\<open>metagpt.schema.Message\<close>. The framework gives every message a fresh identifier and
  compares messages field by field, so two messages built by two constructor calls are
  never equal; \<open>msg_id\<close> is that identifier, drawn from a counter of the world.
\<close>

record message =
  msg_id :: nat
  content :: string
  role :: string
  cause_by :: action
  sent_from :: string
  send_to :: "string set"

text \<open>
  What can go wrong: the content generator raises, the evidence pipeline raises, or
  \<^verbatim>\<open>Role.run\<close> returns \<^verbatim>\<open>None\<close> and the session loop reads \<^verbatim>\<open>response.content\<close>
  of it (an \<^verbatim>\<open>AttributeError\<close>).
\<close>

datatype error = GenerationFailure | EvidenceFailure | NoResponse

text \<open>The arguments of one call of \<^verbatim>\<open>SpeakAloud.run\<close>.\<close>

record speak_args =
  arg_context :: string
  arg_name :: string
  arg_opponent_name1 :: string
  arg_opponent_name2 :: string
  arg_idea :: string
  arg_profile :: string
  arg_round_num :: int
  arg_research_info :: string

text \<open>The calls the session makes, in the order it makes them.\<close>

datatype call =
    Call_RequestResearch string string string
  | Call_research_topic string
  | Call_SpeakAloud speak_args
  | Call_evaluate string "message list"
  | Call_EvaluateDebate string string
  | Call_advise string string
  | Call_ProvideAdvice string string

text \<open>
  The external collaborators. \<open>aask n prompt\<close> is the answer of the content generator to
  the \<open>n\<close>-th prompt it is sent (counting from 0), \<open>None\<close> when it raises. The three actions
  of the module \<^verbatim>\<open>research_actions\<close> are taken as they are called by \<^verbatim>\<open>research_topic\<close>:
  \<open>collect_links topic decomposition_nums url_per_query\<close> gives the dictionary of queries
  and their links in insertion order, \<open>browse_and_summarize urls query\<close> the values of the
  dictionary of summaries, \<open>conduct_research topic content\<close> the report.
\<close>

record oracles =
  aask :: "nat \<Rightarrow> string \<Rightarrow> string option"
  collect_links :: "string \<Rightarrow> nat \<Rightarrow> nat \<Rightarrow> (string \<times> string list) list option"
  browse_and_summarize :: "string list \<Rightarrow> string \<Rightarrow> string list option"
  conduct_research :: "string \<Rightarrow> string \<Rightarrow> string option"

text \<open>
  The world outside the agents: the prompts sent to the content generator so far, the
  calls made so far, and the next fresh message identifier.
\<close>

record world =
  prompts :: "string list"
  calls :: "call list"
  next_id :: nat

definition world0 :: world where
  "world0 = \<lparr>prompts = [], calls = [], next_id = 0\<rparr>"

definition log_call :: "call \<Rightarrow> world \<Rightarrow> world" where
  "log_call c w = w\<lparr>calls := calls w @ [c]\<rparr>"

text \<open>\<^verbatim>\<open>Action._aask\<close>: one prompt to the content generator, no retry.\<close>

definition aask_call :: "oracles \<Rightarrow> string \<Rightarrow> world \<Rightarrow> (error + string) \<times> world" where
  "aask_call env prompt w =
     (case aask env (length (prompts w)) prompt of
        None \<Rightarrow> (Inl GenerationFailure, w\<lparr>prompts := prompts w @ [prompt]\<rparr>)
      | Some rsp \<Rightarrow> (Inr rsp, w\<lparr>prompts := prompts w @ [prompt]\<rparr>))"

text \<open>The constructor \<^verbatim>\<open>Message(...)\<close>: the fields given and a fresh identifier.\<close>

definition Message ::
  "string \<Rightarrow> string \<Rightarrow> action \<Rightarrow> string \<Rightarrow> string set \<Rightarrow> world \<Rightarrow> message \<times> world" where
  "Message c r cb sf st w =
     (\<lparr>msg_id = next_id w, content = c, role = r, cause_by = cb, sent_from = sf, send_to = st\<rparr>,
      w\<lparr>next_id := next_id w + 1\<rparr>)"

section \<open>Python strings\<close>

fun digits :: "nat \<Rightarrow> string" where
  "digits n = (if n < 10 then [''0123456789'' ! n] else digits (n div 10) @ [''0123456789'' ! (n mod 10)])"

declare digits.simps [simp del]

text \<open>\<^verbatim>\<open>str(i)\<close> of an integer, as an f-string prints it.\<close>

definition str_int :: "int \<Rightarrow> string" where
  "str_int i = (if i < 0 then ''-'' @ digits (nat (- i)) else digits (nat i))"

text \<open>\<^verbatim>\<open>sep.join(xs)\<close>.\<close>

fun join :: "string \<Rightarrow> string list \<Rightarrow> string" where
  "join sep [] = []"
| "join sep [x] = x"
| "join sep (x # y # ys) = x @ sep @ join sep (y # ys)"

text \<open>\<^verbatim>\<open>f"{msg.sent_from}: {msg.content}"\<close>.\<close>

definition speaker_line :: "message \<Rightarrow> string" where
  "speaker_line m = sent_from m @ '': '' @ content m"

section \<open>Actions\<close>

definition RequestResearch_prompt :: "string \<Rightarrow> string \<Rightarrow> string \<Rightarrow> string" where
  "RequestResearch_prompt name profile topic =
     ''\<newline>    ## BACKGROUND\<newline>    You are '' @ name @ '', a '' @ profile @ '' preparing for a debate on: '' @ topic @ ''\<newline>    \<newline>    ## TASK\<newline>    What specific aspect of this topic would you like to research to strengthen your position?\<newline>    Provide ONE specific research query (1-2 sentences) that would help you in this debate.\<newline>    Focus on facts, statistics, examples, or evidence that would support your '' @ profile @ '' perspective.\<newline>    ''"

definition RequestResearch_run ::
  "oracles \<Rightarrow> string \<Rightarrow> string \<Rightarrow> string \<Rightarrow> world \<Rightarrow> (error + string) \<times> world" where
  "RequestResearch_run env name profile topic w =
     aask_call env (RequestResearch_prompt name profile topic)
       (log_call (Call_RequestResearch name profile topic) w)"

text \<open>The instruction of \<^verbatim>\<open>SpeakAloud.run\<close> in \<^verbatim>\<open>main.py\<close>.\<close>

definition instruction_main :: "int \<Rightarrow> string \<Rightarrow> string \<Rightarrow> string" where
  "instruction_main round_num profile name =
     (if round_num \<le> 3 then
        ''This is round '' @ str_int round_num @ '' of 3 opening rounds. You should ONLY state your view on the topic, give your arguments and how you logically and rigorously arrived at your views. Do NOT rebut or respond to any of your opponents' arguments yet. Your viewpoint should be clear, concise, and extremely stereotypical of a '' @ profile @ ''. MANDATORY: Use specific facts, statistics, and evidence from your research information to support your arguments. Include proper citations in your response using [Source: URL or description] format.''
      else
        ''This is round '' @ str_int round_num @ ''. You should defend your arguments, and attack and directly rebut your opponents' arguments if they differ from yours. Craft a strong, logically rigorous response in '' @ name @ [CHR 0x27] @ ''s rhetoric and viewpoints. MANDATORY: Support your arguments with specific evidence from your research and include citations using [Source: URL or description] format.'')"

text \<open>The instruction of \<^verbatim>\<open>SpeakAloud.run\<close> in \<^verbatim>\<open>streamlit_debate.py\<close>.\<close>

definition instruction_streamlit :: "int \<Rightarrow> string \<Rightarrow> string \<Rightarrow> string" where
  "instruction_streamlit round_num profile name =
     (if round_num \<le> 3 then
        ''This is round '' @ str_int round_num @ '' of 3 opening rounds. You should ONLY state your view on the topic, give your arguments and how you logically and rigorously arrived at your views. Do NOT rebut or respond to any of your opponents' arguments. Your viewpoint should be clear, concise, and stereotypical of a '' @ profile @ ''. MANDATORY: Use specific facts, statistics, and evidence from your research information to support your arguments. Include proper citations in your response using [Source: URL or description] format.''
      else
        ''This is round '' @ str_int round_num @ ''. You should first restate your view, then closely respond to your opponents' latest arguments, defend your arguments, and attack your opponents' arguments if they differ from yours. Craft a strong, logically rigorous response in '' @ name @ [CHR 0x27] @ ''s rhetoric and viewpoints. MANDATORY: Support your arguments with specific evidence from your research and include citations using [Source: URL or description] format.'')"

definition instruction :: "src_file \<Rightarrow> int \<Rightarrow> string \<Rightarrow> string \<Rightarrow> string" where
  "instruction f round_num profile name =
     (case f of MainPy \<Rightarrow> instruction_main round_num profile name
              | StreamlitPy \<Rightarrow> instruction_streamlit round_num profile name)"

definition SpeakAloud_prompt :: "src_file \<Rightarrow> speak_args \<Rightarrow> string" where
  "SpeakAloud_prompt f a =
     ''\<newline>    ## BACKGROUND\<newline>    Suppose you are '' @ arg_name a @ '', you are in a debate with '' @ arg_opponent_name1 a @ '' and '' @ arg_opponent_name2 a @ ''. You are debating the topic:\<newline>    '' @ arg_idea a @ ''\<newline>    ## DEBATE HISTORY\<newline>    Previous rounds:\<newline>    '' @ arg_context a @ ''\<newline>    ## RESEARCH INFORMATION\<newline>    '' @ arg_research_info a @ ''\<newline>    ## YOUR TURN\<newline>    '' @ instruction f (arg_round_num a) (arg_profile a) (arg_name a) @ ''\<newline>    ''"

definition SpeakAloud_run :: "src_file \<Rightarrow> oracles \<Rightarrow> speak_args \<Rightarrow> world \<Rightarrow> (error + string) \<times> world" where
  "SpeakAloud_run f env a w = aask_call env (SpeakAloud_prompt f a) (log_call (Call_SpeakAloud a) w)"

definition EvaluateDebate_prompt :: "string \<Rightarrow> string \<Rightarrow> string" where
  "EvaluateDebate_prompt topic debate_content =
     ''\<newline>    ## ROLE\<newline>    You are a neutral evaluator analyzing a debate to provide clear, actionable recommendations.\<newline>\<newline>    ## DEBATE TOPIC\<newline>    '' @ topic @ ''\<newline>\<newline>    ## DEBATE CONTENT\<newline>    '' @ debate_content @ ''\<newline>\<newline>    ## TASK\<newline>    Write a concise evaluation (200-300 words) that:\<newline>    1. Summarizes key arguments from all participants\<newline>    2. Identifies core trade-offs and considerations\<newline>    3. Provides balanced, practical recommendations for decision-makers\<newline>    4. Focuses on actionable solutions\<newline>\<newline>    Your response should be structured and help stakeholders make informed decisions.\<newline>    ''"

definition EvaluateDebate_run :: "oracles \<Rightarrow> string \<Rightarrow> string \<Rightarrow> world \<Rightarrow> (error + string) \<times> world" where
  "EvaluateDebate_run env topic debate_content w =
     aask_call env (EvaluateDebate_prompt topic debate_content)
       (log_call (Call_EvaluateDebate topic debate_content) w)"

definition ProvideAdvice_prompt :: "string \<Rightarrow> string \<Rightarrow> string" where
  "ProvideAdvice_prompt topic evaluation =
     ''\<newline>    ## ROLE\<newline>    You are a neutral advisor analyzing a debate to provide compromise solutions.\<newline>\<newline>    ## DEBATE TOPIC\<newline>    '' @ topic @ ''\<newline>\<newline>    ## EVALUATION\<newline>    '' @ evaluation @ ''\<newline>\<newline>    ## TASK\<newline>    Based on the evaluation, provide 3 compromise solutions that balance all perspectives.\<newline>    For each solution:\<newline>    1. **Solution**: Brief description\<newline>    2. **Benefits**: How it addresses each party's concerns\<newline>    3. **Consequences**: Potential negative outcomes for each party\<newline>    4. **Implementation**: Practical steps\<newline>\<newline>    Focus on realistic compromises that all parties could accept.\<newline>    ''"

definition ProvideAdvice_run :: "oracles \<Rightarrow> string \<Rightarrow> string \<Rightarrow> world \<Rightarrow> (error + string) \<times> world" where
  "ProvideAdvice_run env topic evaluation w =
     aask_call env (ProvideAdvice_prompt topic evaluation)
       (log_call (Call_ProvideAdvice topic evaluation) w)"

section \<open>Evaluator, advisor and researcher\<close>

text \<open>\<^verbatim>\<open>DebateEvaluator.evaluate\<close>.\<close>

definition evaluate :: "oracles \<Rightarrow> string \<Rightarrow> message list \<Rightarrow> world \<Rightarrow> (error + string) \<times> world" where
  "evaluate env topic debate_messages w =
     EvaluateDebate_run env topic (join ''\<newline>\<newline>'' (map speaker_line debate_messages))
       (log_call (Call_evaluate topic debate_messages) w)"

text \<open>\<^verbatim>\<open>DebateAdvisor.advise\<close>.\<close>

definition advise :: "oracles \<Rightarrow> string \<Rightarrow> string \<Rightarrow> world \<Rightarrow> (error + string) \<times> world" where
  "advise env topic evaluation w =
     ProvideAdvice_run env topic evaluation (log_call (Call_advise topic evaluation) w)"

text \<open>
  The loop of \<^verbatim>\<open>Researcher.research_topic\<close> over \<^verbatim>\<open>links.items()\<close>: at most four links
  are browsed in all.
\<close>

fun browse_loop ::
  "oracles \<Rightarrow> (string \<times> string list) list \<Rightarrow> string list \<Rightarrow> nat \<Rightarrow> error + string list" where
  "browse_loop env [] summaries url_count = Inr summaries"
| "browse_loop env ((query, urls) # rest) summaries url_count =
     (if urls \<noteq> [] \<and> url_count < 4 then
        (case browse_and_summarize env (take (4 - url_count) urls) query of
           None \<Rightarrow> Inl EvidenceFailure
         | Some result \<Rightarrow>
             browse_loop env rest (summaries @ result)
               (url_count + length (take (4 - url_count) urls)))
      else browse_loop env rest summaries url_count)"

definition research_topic :: "oracles \<Rightarrow> string \<Rightarrow> world \<Rightarrow> (error + string) \<times> world" where
  "research_topic env topic w =
     (case collect_links env topic 2 2 of
        None \<Rightarrow> (Inl EvidenceFailure, log_call (Call_research_topic topic) w)
      | Some links \<Rightarrow>
          (case browse_loop env links [] 0 of
             Inl e \<Rightarrow> (Inl e, log_call (Call_research_topic topic) w)
           | Inr summaries \<Rightarrow>
               (case conduct_research env topic (join ''\<newline>---\<newline>'' summaries) of
                  None \<Rightarrow> (Inl EvidenceFailure, log_call (Call_research_topic topic) w)
                | Some report \<Rightarrow> (Inr report, log_call (Call_research_topic topic) w))))"

section \<open>The debating agent\<close>

text \<open>
  \<^verbatim>\<open>Debator\<close>, with the part of the framework's role context that the session uses: the
  memory of the agent (\<^verbatim>\<open>rc.memory\<close>), its message buffer (\<^verbatim>\<open>rc.msg_buffer\<close>), the news
  of its last observation (\<^verbatim>\<open>rc.news\<close>) and the last message it observed. Every agent
  has a memory of its own: the session creates no shared environment.
\<close>

record debator =
  name :: string
  profile :: string
  opponent_name1 :: string
  opponent_name2 :: string
  research_info :: string
  research_count :: int
  max_research :: int
  memory :: "message list"
  msg_buffer :: "message list"
  news :: "message list"
  latest_observed_msg :: "message option"

text \<open>The constructor \<^verbatim>\<open>Debator(name=..., profile=..., opponent_name1=..., opponent_name2=...)\<close>.\<close>

definition Debator :: "string \<Rightarrow> string \<Rightarrow> string \<Rightarrow> string \<Rightarrow> debator" where
  "Debator n p o1 o2 =
     \<lparr>name = n, profile = p, opponent_name1 = o1, opponent_name2 = o2,
      research_info = [], research_count = 0, max_research = 1,
      memory = [], msg_buffer = [], news = [], latest_observed_msg = None\<rparr>"

text \<open>\<^verbatim>\<open>self._watch([UserRequirement, SpeakAloud])\<close>.\<close>

definition watch :: "action set" where
  "watch = {UserRequirement, SpeakAloud}"

text \<open>\<^verbatim>\<open>Debator.request_research\<close>.\<close>

definition request_research ::
  "oracles \<Rightarrow> string \<Rightarrow> debator \<Rightarrow> world \<Rightarrow> (error + string) \<times> debator \<times> world" where
  "request_research env topic d w =
     (if research_count d \<ge> max_research d then (Inr ''Research limit reached'', d, w)
      else
        (case RequestResearch_run env (name d) (profile d) topic w of
           (Inl e, w1) \<Rightarrow> (Inl e, d, w1)
         | (Inr query, w1) \<Rightarrow>
             (case research_topic env query w1 of
                (Inl e, w2) \<Rightarrow> (Inl e, d, w2)
              | (Inr research_result, w2) \<Rightarrow>
                  (Inr research_result,
                   d\<lparr>research_info := research_info d @ ''\<newline>\<newline>Research Query: '' @ query
                        @ ''\<newline>Research Result: '' @ research_result,
                     research_count := research_count d + 1\<rparr>,
                   w2))))"

text \<open>
  The framework's memory: \<^verbatim>\<open>Memory.add\<close> appends a message unless it is stored
  already, \<^verbatim>\<open>Memory.add_batch\<close> adds the messages of a list one by one.
\<close>

definition memory_add :: "message \<Rightarrow> message list \<Rightarrow> message list" where
  "memory_add m storage = (if m \<in> set storage then storage else storage @ [m])"

fun add_batch :: "message list \<Rightarrow> message list \<Rightarrow> message list" where
  "add_batch [] storage = storage"
| "add_batch (m # ms) storage = add_batch ms (memory_add m storage)"

text \<open>
  The framework's \<^verbatim>\<open>Role._observe\<close>, which \<^verbatim>\<open>Debator._observe\<close> calls first: it empties
  the message buffer, stores what it held in the memory, and keeps as news the messages
  that are watched or addressed to the agent and that the memory did not hold before.
\<close>

definition Role_observe :: "debator \<Rightarrow> debator" where
  "Role_observe d =
     d\<lparr>msg_buffer := [],
       memory := add_batch (msg_buffer d) (memory d),
       news := filter (\<lambda>n. (cause_by n \<in> watch \<or> name d \<in> send_to n) \<and> n \<notin> set (memory d))
                 (msg_buffer d),
       latest_observed_msg :=
         (case filter (\<lambda>n. (cause_by n \<in> watch \<or> name d \<in> send_to n) \<and> n \<notin> set (memory d))
                 (msg_buffer d) of
            [] \<Rightarrow> None
          | x # xs \<Rightarrow> Some (last (x # xs)))\<rparr>"

text \<open>The list comprehension of \<^verbatim>\<open>Debator._observe\<close>.\<close>

definition observe_filter :: "string \<Rightarrow> message list \<Rightarrow> message list" where
  "observe_filter self_name ms =
     filter (\<lambda>m. self_name \<in> send_to m \<or> send_to m = {self_name}) ms"

text \<open>\<^verbatim>\<open>Debator._observe\<close>: the number of news and the agent after the observation.\<close>

definition Debator_observe :: "debator \<Rightarrow> nat \<times> debator" where
  "Debator_observe d =
     (length (observe_filter (name d) (news (Role_observe d))),
      (Role_observe d)\<lparr>news := observe_filter (name d) (news (Role_observe d))\<rparr>)"

text \<open>The arguments that \<^verbatim>\<open>Debator._act\<close> passes to \<^verbatim>\<open>SpeakAloud.run\<close>.\<close>

definition act_args :: "debator \<Rightarrow> speak_args" where
  "act_args d =
     \<lparr>arg_context = join ''\<newline>'' (map speaker_line (memory d)),
      arg_name = name d,
      arg_opponent_name1 = opponent_name1 d,
      arg_opponent_name2 = opponent_name2 d,
      arg_idea = (case memory d of [] \<Rightarrow> ''debate topic'' | m # ms \<Rightarrow> content m),
      arg_profile = profile d,
      arg_round_num = int (length (filter (\<lambda>m. sent_from m = name d) (memory d))) + 1,
      arg_research_info = research_info d\<rparr>"

text \<open>\<^verbatim>\<open>Debator._act\<close>.\<close>

definition Debator_act ::
  "src_file \<Rightarrow> oracles \<Rightarrow> debator \<Rightarrow> world \<Rightarrow> (error + message) \<times> debator \<times> world" where
  "Debator_act f env d w =
     (case SpeakAloud_run f env (act_args d) w of
        (Inl e, w1) \<Rightarrow> (Inl e, d, w1)
      | (Inr rsp, w1) \<Rightarrow>
          (case Message rsp (profile d) SpeakAloud (name d) {opponent_name1 d, opponent_name2 d} w1 of
             (m, w2) \<Rightarrow> (Inr m, d\<lparr>memory := memory_add m (memory d)\<rparr>, w2)))"

text \<open>
  What the framework's decorator of \<^verbatim>\<open>Role.run\<close> does when the run raises: the last
  observed message is taken out of the memory, and the exception is raised again.
\<close>

definition role_raise :: "debator \<Rightarrow> debator" where
  "role_raise d =
     (case latest_observed_msg d of
        None \<Rightarrow> d
      | Some m \<Rightarrow> d\<lparr>memory := remove1 m (memory d)\<rparr>)"

text \<open>
  The framework's \<^verbatim>\<open>Role.run(with_message)\<close> for an agent with the single action
  \<^verbatim>\<open>SpeakAloud\<close>: the message is put into the buffer, the agent observes, returns
  \<^verbatim>\<open>None\<close> when there are no news, and acts once otherwise. There is no environment, so
  publishing the response does nothing.
\<close>

definition Role_run ::
  "src_file \<Rightarrow> oracles \<Rightarrow> message \<Rightarrow> debator \<Rightarrow> world
     \<Rightarrow> (error + message option) \<times> debator \<times> world" where
  "Role_run f env with_message d w =
     (case Debator_observe (d\<lparr>msg_buffer := msg_buffer d @ [with_message]\<rparr>) of
        (n, d1) \<Rightarrow>
          if n = 0 then (Inr None, d1, w)
          else
            (case Debator_act f env d1 w of
               (Inl e, d2, w1) \<Rightarrow> (Inl e, role_raise d2, w1)
             | (Inr rsp, d2, w1) \<Rightarrow> (Inr (Some rsp), d2, w1)))"

section \<open>The session\<close>

text \<open>An entry of \<^verbatim>\<open>debate_log\<close> and an entry of \<^verbatim>\<open>research_log\<close> (\<^verbatim>\<open>streamlit_debate.py\<close>).\<close>

record log_entry =
  log_round :: int
  log_speaker :: string
  log_content :: string

record research_entry =
  log_debater :: string
  log_research :: string

text \<open>
  The variables of the session loop. The three speaker variables hold the three agents
  in some order; the loop permutes them.
\<close>

record session =
  current_speaker :: debator
  second_speaker :: debator
  third_speaker :: debator
  msg :: message
  all_messages :: "message list"
  debate_log :: "log_entry list"

text \<open>
  The research phase: every debater requests research once, in the order of the list
  \<^verbatim>\<open>debaters\<close>. An exception of a request ends the phase. The result is the list of the
  debaters as the requests left them and the research log.
\<close>

fun research_phase ::
  "oracles \<Rightarrow> string \<Rightarrow> debator list \<Rightarrow> world
     \<Rightarrow> (error + debator list \<times> research_entry list) \<times> world" where
  "research_phase env idea [] w = (Inr ([], []), w)"
| "research_phase env idea (debater # rest) w =
     (case request_research env idea debater w of
        (Inl e, d, w1) \<Rightarrow> (Inl e, w1)
      | (Inr research_result, d, w1) \<Rightarrow>
          (case research_phase env idea rest w1 of
             (Inl e, w2) \<Rightarrow> (Inl e, w2)
           | (Inr (ds, research_log), w2) \<Rightarrow>
               (Inr (d # ds,
                     \<lparr>log_debater = name d, log_research = research_result\<rparr> # research_log),
                w2)))"

text \<open>
  The session up to the loop: the three agents with their opponents, the research phase,
  the speaker variables and the initial message.
\<close>

definition start_session ::
  "oracles \<Rightarrow> string \<Rightarrow> world \<Rightarrow> (error + session \<times> research_entry list) \<times> world" where
  "start_session env idea w =
     (case research_phase env idea
             [Debator ''Principal'' ''School'' ''John'' ''Mom'',
              Debator ''John'' ''Student'' ''Mom'' ''Principal'',
              Debator ''Mom'' ''Parent'' ''Principal'' ''John''] w of
        (Inl e, w1) \<Rightarrow> (Inl e, w1)
      | (Inr (debaters, research_log), w1) \<Rightarrow>
          (case Message idea ''user'' UserRequirement ''User'' {''Principal''} w1 of
             (m, w2) \<Rightarrow>
               (Inr (\<lparr>current_speaker = debaters ! 0,
                      second_speaker = debaters ! 1,
                      third_speaker = debaters ! 2,
                      msg = m, all_messages = [], debate_log = []\<rparr>,
                     research_log),
                w2)))"

text \<open>
  The loop \<^verbatim>\<open>for round_num in range(n_round)\<close>, over the list of the round numbers that
  are left. An exception ends it; so does a run that returns \<^verbatim>\<open>None\<close>, whose
  \<^verbatim>\<open>content\<close> the loop reads next. Only \<^verbatim>\<open>streamlit_debate.py\<close> keeps the debate log.
\<close>

fun rounds ::
  "src_file \<Rightarrow> oracles \<Rightarrow> nat list \<Rightarrow> session \<Rightarrow> world \<Rightarrow> error option \<times> session \<times> world" where
  "rounds f env [] s w = (None, s, w)"
| "rounds f env (round_num # rest) s w =
     (case Role_run f env (msg s) (current_speaker s) w of
        (Inl e, d, w1) \<Rightarrow> (Some e, s\<lparr>current_speaker := d\<rparr>, w1)
      | (Inr None, d, w1) \<Rightarrow> (Some NoResponse, s\<lparr>current_speaker := d\<rparr>, w1)
      | (Inr (Some response), d, w1) \<Rightarrow>
          rounds f env rest
            (s\<lparr>debate_log :=
                 (case f of
                    MainPy \<Rightarrow> debate_log s
                  | StreamlitPy \<Rightarrow>
                      debate_log s @
                        [\<lparr>log_round = int round_num + 1, log_speaker = name d,
                          log_content = content response\<rparr>]),
               all_messages := all_messages s @ [response],
               current_speaker := third_speaker s,
               second_speaker := d,
               third_speaker := second_speaker s,
               msg := response\<rparr>)
            w1)"

text \<open>
  \<^verbatim>\<open>debate\<close> of \<^verbatim>\<open>main.py\<close>. Beside the evaluation or the exception, the result shows
  the list \<^verbatim>\<open>all_messages\<close> and the world as the run left them.
\<close>

definition debate ::
  "oracles \<Rightarrow> string \<Rightarrow> real \<Rightarrow> int \<Rightarrow> (error + string) \<times> message list \<times> world" where
  "debate env idea investment n_round =
     (case start_session env idea world0 of
        (Inl e, w) \<Rightarrow> (Inl e, [], w)
      | (Inr (s0, research_log), w) \<Rightarrow>
          (case rounds MainPy env [0..<nat n_round] s0 w of
             (Some e, s, w1) \<Rightarrow> (Inl e, all_messages s, w1)
           | (None, s, w1) \<Rightarrow>
               (case evaluate env idea (all_messages s) w1 of
                  (evaluation, w2) \<Rightarrow> (evaluation, all_messages s, w2))))"

text \<open>\<^verbatim>\<open>main\<close> of \<^verbatim>\<open>main.py\<close>: it runs \<^verbatim>\<open>debate\<close> and returns nothing.\<close>

definition main :: "oracles \<Rightarrow> string \<Rightarrow> real \<Rightarrow> int \<Rightarrow> (error + unit) \<times> world" where
  "main env idea investment n_round =
     (case debate env idea investment n_round of
        (Inl e, ms, w) \<Rightarrow> (Inl e, w)
      | (Inr evaluation, ms, w) \<Rightarrow> (Inr (), w))"

text \<open>
  \<^verbatim>\<open>run_debate\<close> of \<^verbatim>\<open>streamlit_debate.py\<close>: it returns the debate log, the evaluation,
  the research log and the advice.
\<close>

definition run_debate ::
  "oracles \<Rightarrow> string \<Rightarrow> int
     \<Rightarrow> (error + log_entry list \<times> string \<times> research_entry list \<times> string)
        \<times> message list \<times> world" where
  "run_debate env idea n_round =
     (case start_session env idea world0 of
        (Inl e, w) \<Rightarrow> (Inl e, [], w)
      | (Inr (s0, research_log), w) \<Rightarrow>
          (case rounds StreamlitPy env [0..<nat n_round] s0 w of
             (Some e, s, w1) \<Rightarrow> (Inl e, all_messages s, w1)
           | (None, s, w1) \<Rightarrow>
               (case evaluate env idea (all_messages s) w1 of
                  (Inl e, w2) \<Rightarrow> (Inl e, all_messages s, w2)
                | (Inr evaluation, w2) \<Rightarrow>
                    (case advise env idea evaluation w2 of
                       (Inl e, w3) \<Rightarrow> (Inl e, all_messages s, w3)
                     | (Inr advice, w3) \<Rightarrow>
                         (Inr (debate_log s, evaluation, research_log, advice),
                          all_messages s, w3)))))"

section \<open>Definitions used by the statements\<close>

text \<open>
  Any sequence of calls of \<^verbatim>\<open>request_research\<close> on one agent, one per topic of the list,
  whatever each call returns or raises.
\<close>

fun request_research_seq :: "oracles \<Rightarrow> string list \<Rightarrow> debator \<Rightarrow> world \<Rightarrow> debator \<times> world" where
  "request_research_seq env [] d w = (d, w)"
| "request_research_seq env (t # ts) d w =
     (case request_research env t d w of (r, d1, w1) \<Rightarrow> request_research_seq env ts d1 w1)"

text \<open>Collaborators that always answer: the generator with \<open>ok\<close>, the researcher with \<open>report\<close>.\<close>

definition env_silent :: oracles where
  "env_silent = \<lparr>aask = (\<lambda>n p. Some ''ok''),
                 collect_links = (\<lambda>t a b. Some []),
                 browse_and_summarize = (\<lambda>urls q. Some []),
                 conduct_research = (\<lambda>t c. Some ''report'')\<rparr>"

text \<open>The agent after it has observed the message \<open>m\<close> as its only news.\<close>

definition observed :: "message \<Rightarrow> debator \<Rightarrow> debator" where
  "observed m d = d\<lparr>msg_buffer := [], memory := memory d @ [m], news := [m], latest_observed_msg := Some m\<rparr>"

text \<open>The message that \<^verbatim>\<open>_act\<close> builds from the generated text \<open>c\<close>.\<close>

definition response_to :: "debator \<Rightarrow> string \<Rightarrow> world \<Rightarrow> message" where
  "response_to d c w =
     \<lparr>msg_id = next_id w, content = c, role = profile d, cause_by = SpeakAloud,
      sent_from = name d, send_to = {opponent_name1 d, opponent_name2 d}\<rparr>"

text \<open>The world after one call of \<^verbatim>\<open>SpeakAloud.run\<close> by the agent \<open>d\<close>.\<close>

definition spoken :: "src_file \<Rightarrow> debator \<Rightarrow> world \<Rightarrow> world" where
  "spoken f d w =
     w\<lparr>prompts := prompts w @ [SpeakAloud_prompt f (act_args d)],
       calls := calls w @ [Call_SpeakAloud (act_args d)]\<rparr>"

text \<open>The invariant of the session loop: every agent addresses the other two, the message
  buffers are empty, every stored message is older than the next fresh identifier, and the
  incoming message is new to the current speaker and addressed to it.\<close>

definition session_inv :: "session \<Rightarrow> world \<Rightarrow> bool" where
  "session_inv s w \<longleftrightarrow>
     opponent_name1 (current_speaker s) = name (second_speaker s)
   \<and> opponent_name2 (current_speaker s) = name (third_speaker s)
   \<and> opponent_name1 (second_speaker s) = name (third_speaker s)
   \<and> opponent_name2 (second_speaker s) = name (current_speaker s)
   \<and> opponent_name1 (third_speaker s) = name (current_speaker s)
   \<and> opponent_name2 (third_speaker s) = name (second_speaker s)
   \<and> msg_buffer (current_speaker s) = [] \<and> msg_buffer (second_speaker s) = []
   \<and> msg_buffer (third_speaker s) = []
   \<and> (\<forall>m \<in> set (memory (current_speaker s)). msg_id m < next_id w)
   \<and> (\<forall>m \<in> set (memory (second_speaker s)). msg_id m < next_id w)
   \<and> (\<forall>m \<in> set (memory (third_speaker s)). msg_id m < next_id w)
   \<and> msg_id (msg s) < next_id w
   \<and> msg s \<notin> set (memory (current_speaker s))
   \<and> name (current_speaker s) \<in> send_to (msg s)"

text \<open>The assignments at the end of a round of the loop.\<close>

definition advance :: "src_file \<Rightarrow> nat \<Rightarrow> session \<Rightarrow> debator \<Rightarrow> message \<Rightarrow> session" where
  "advance f round_num s d response =
     s\<lparr>debate_log :=
         (case f of
            MainPy \<Rightarrow> debate_log s
          | StreamlitPy \<Rightarrow>
              debate_log s @
                [\<lparr>log_round = int round_num + 1, log_speaker = name d,
                  log_content = content response\<rparr>]),
       all_messages := all_messages s @ [response],
       current_speaker := third_speaker s,
       second_speaker := d,
       third_speaker := second_speaker s,
       msg := response\<rparr>"

text \<open>The agent after a successful act.\<close>

definition acted :: "message \<Rightarrow> message \<Rightarrow> debator \<Rightarrow> debator" where
  "acted m rsp d = (observed m d)\<lparr>memory := memory d @ [m, rsp]\<rparr>"

text \<open>The calls of \<^verbatim>\<open>SpeakAloud.run\<close>.\<close>

fun is_speak :: "call \<Rightarrow> bool" where
  "is_speak (Call_SpeakAloud a) = True"
| "is_speak c = False"

text \<open>The speaker that the loop reaches \<open>i\<close> rounds after the state \<open>s\<close>.\<close>

definition speaker_of :: "session \<Rightarrow> nat \<Rightarrow> string" where
  "speaker_of s i =
     [name (current_speaker s), name (third_speaker s), name (second_speaker s)] ! (i mod 3)"

text \<open>The entry of the debate log for a round and its response.\<close>

definition log_of :: "nat \<Rightarrow> message \<Rightarrow> log_entry" where
  "log_of round_num m =
     \<lparr>log_round = int round_num + 1, log_speaker = sent_from m, log_content = content m\<rparr>"

text \<open>The prompt, the response and the next state and world of a round that succeeds.\<close>

definition turn_prompt :: "src_file \<Rightarrow> session \<Rightarrow> string" where
  "turn_prompt f s = SpeakAloud_prompt f (act_args (observed (msg s) (current_speaker s)))"

definition turn_response :: "string \<Rightarrow> session \<Rightarrow> world \<Rightarrow> message" where
  "turn_response c s w = response_to (current_speaker s) c w"

definition next_state :: "src_file \<Rightarrow> nat \<Rightarrow> string \<Rightarrow> session \<Rightarrow> world \<Rightarrow> session" where
  "next_state f rn c s w =
     advance f rn s (acted (msg s) (turn_response c s w) (current_speaker s)) (turn_response c s w)"

definition next_world :: "src_file \<Rightarrow> session \<Rightarrow> world \<Rightarrow> world" where
  "next_world f s w = (spoken f (observed (msg s) (current_speaker s)) w)\<lparr>next_id := next_id w + 1\<rparr>"

text \<open>The calls of the research phase.\<close>

fun is_research :: "call \<Rightarrow> bool" where
  "is_research (Call_RequestResearch n p t) = True"
| "is_research (Call_research_topic q) = True"
| "is_research c = False"

text \<open>Two values of one agent that differ at most in the evidence ledger and its count.\<close>

definition same_identity :: "debator \<Rightarrow> debator \<Rightarrow> bool" where
  "same_identity d d' \<longleftrightarrow>
     d' = d\<lparr>research_info := research_info d', research_count := research_count d'\<rparr>"

text \<open>The initial message of the session.\<close>

definition seed :: "string \<Rightarrow> nat \<Rightarrow> message" where
  "seed idea i =
     \<lparr>msg_id = i, content = idea, role = ''user'', cause_by = UserRequirement,
      sent_from = ''User'', send_to = {''Principal''}\<rparr>"

text \<open>The speaker of the round with index \<open>i\<close>, counted from 0.\<close>

definition rotation :: "nat \<Rightarrow> string" where
  "rotation i = [''Principal'', ''Mom'', ''John''] ! (i mod 3)"

text \<open>The text that \<^verbatim>\<open>DebateEvaluator.evaluate\<close> builds from the messages.\<close>

definition debate_content_of :: "message list \<Rightarrow> string" where
  "debate_content_of ms = join ''\<newline>\<newline>'' (map speaker_line ms)"

text \<open>The calls of the evaluator and of the advisor.\<close>

fun is_aggregator :: "call \<Rightarrow> bool" where
  "is_aggregator (Call_evaluate t ms) = True"
| "is_aggregator (Call_EvaluateDebate t c) = True"
| "is_aggregator (Call_advise t e) = True"
| "is_aggregator (Call_ProvideAdvice t e) = True"
| "is_aggregator c = False"

text \<open>Collaborators whose researcher always answers with the given report, around a given
  content generator.\<close>

definition env_with :: "string \<Rightarrow> (nat \<Rightarrow> string \<Rightarrow> string option) \<Rightarrow> oracles" where
  "env_with report a = \<lparr>aask = a,
                 collect_links = (\<lambda>t x y. Some []),
                 browse_and_summarize = (\<lambda>urls q. Some []),
                 conduct_research = (\<lambda>t c. Some report)\<rparr>"

text \<open>A content generator that raises on its \<open>k\<close>-th prompt and answers every other one.\<close>

definition fails_at :: "nat \<Rightarrow> nat \<Rightarrow> string \<Rightarrow> string option" where
  "fails_at k n p = (if n = k then None else Some ''ok'')"


text \<open>The arguments of the calls of \<^verbatim>\<open>SpeakAloud.run\<close> among the calls of a run, in order.\<close>

fun speak_calls :: "call list \<Rightarrow> speak_args list" where
  "speak_calls [] = []"
| "speak_calls (Call_SpeakAloud a # cs) = a # speak_calls cs"
| "speak_calls (c # cs) = speak_calls cs"

text \<open>A content generator whose answer to the first round of the debate (its fourth prompt, after
  the three of the research phase) is a sentence of its own.\<close>

definition first_reply :: "nat \<Rightarrow> string \<Rightarrow> string option" where
  "first_reply n p = (if n = 3 then Some ''Phones distract pupils.'' else Some ''ok'')"

section \<open>The evidence gate\<close>

lemma request_research_step:
  "research_count d \<le> max_research d \<Longrightarrow> request_research env t d w = (r, d1, w1) \<Longrightarrow>
   research_count d1 \<le> max_research d1 \<and> max_research d1 = max_research d"
  by (auto simp: request_research_def split: if_splits prod.splits sum.splits)

lemma request_research_seq_inv:
  "research_count d \<le> max_research d \<Longrightarrow>
   research_count (fst (request_research_seq env ts d w)) \<le> max_research (fst (request_research_seq env ts d w))
   \<and> max_research (fst (request_research_seq env ts d w)) = max_research d"
proof (induction ts arbitrary: d w)
  case Nil then show ?case by simp
next
  case (Cons t ts)
  obtain r d1 w1 where st: "request_research env t d w = (r, d1, w1)" by (cases "request_research env t d w") auto
  from request_research_step[OF Cons.prems st] have a: "research_count d1 \<le> max_research d1" and b: "max_research d1 = max_research d" by auto
  from Cons.IH[OF a, of w1] st b show ?case by simp
qed

text \<open>
  Claim C3. The number of research requests an agent has used never exceeds its cap,
  whatever sequence of calls of \<^verbatim>\<open>request_research\<close> is made, and it never exceeds 1 for
  an agent as the session constructs it. A call made when the count has reached the cap
  returns the sentinel \<open>Research limit reached\<close> and leaves the agent and the world as they
  were: no prompt is sent to the generator, no call of the researcher is made, the ledger
  and the count are unchanged.
\<close>

theorem research_count_never_exceeds_cap:
  "(research_count d \<le> max_research d \<longrightarrow>
      research_count (fst (request_research_seq env ts d w)) \<le> max_research d
      \<and> max_research (fst (request_research_seq env ts d w)) = max_research d)
   \<and> research_count (fst (request_research_seq env ts (Debator n p o1 o2) w)) \<le> 1
   \<and> (research_count d \<ge> max_research d \<longrightarrow>
        request_research env t d w = (Inr ''Research limit reached'', d, w))"
proof -
  have "research_count (Debator n p o1 o2) \<le> max_research (Debator n p o1 o2)" "max_research (Debator n p o1 o2) = 1"
    by (simp_all add: Debator_def)
  with request_research_seq_inv[of "Debator n p o1 o2" env ts w] have "research_count (fst (request_research_seq env ts (Debator n p o1 o2) w)) \<le> 1" by simp
  moreover have "research_count d \<ge> max_research d \<longrightarrow> request_research env t d w = (Inr ''Research limit reached'', d, w)"
    by (simp add: request_research_def)
  ultimately show ?thesis using request_research_seq_inv[of d env ts w] by auto
qed

lemma rr_silent: "request_research env_silent t (Debator n p o1 o2) world0 = (Inr ''report'', (Debator n p o1 o2)\<lparr>research_info := ''\<newline>\<newline>Research Query: ok\<newline>Research Result: report'', research_count := 1\<rparr>, \<lparr>prompts = [RequestResearch_prompt n p t], calls = [Call_RequestResearch n p t, Call_research_topic ''ok''], next_id = 0\<rparr>)"
  by (simp add: request_research_def env_silent_def Debator_def RequestResearch_run_def aask_call_def log_call_def world0_def research_topic_def)

theorem research_count_never_exceeds_cap_witness:
  "research_count (fst (request_research_seq env_silent [''a''] (Debator ''Mom'' ''Parent'' ''Principal'' ''John'') world0)) = 1
   \<and> max_research (fst (request_research_seq env_silent [''a''] (Debator ''Mom'' ''Parent'' ''Principal'' ''John'') world0)) = 1
   \<and> fst (request_research env_silent ''b''
        (fst (request_research_seq env_silent [''a''] (Debator ''Mom'' ''Parent'' ''Principal'' ''John'') world0)) world0)
       = Inr ''Research limit reached''"
proof -
  let ?d = "fst (request_research_seq env_silent [''a''] (Debator ''Mom'' ''Parent'' ''Principal'' ''John'') world0)"
  have d: "?d = (Debator ''Mom'' ''Parent'' ''Principal'' ''John'')
                  \<lparr>research_info := ''\<newline>\<newline>Research Query: ok\<newline>Research Result: report'', research_count := 1\<rparr>"
    by (simp add: rr_silent)
  have c: "research_count ?d = 1" and m: "max_research ?d = 1"
    unfolding d by (simp_all add: Debator_def)
  from c m have h1: "research_count ?d \<le> max_research ?d" and h2: "research_count ?d \<ge> max_research ?d"
    by simp_all
  from research_count_never_exceeds_cap [of ?d env_silent "[]" world0 "''Mom''" "''Parent''" "''Principal''" "''John''" "''b''"] h1 h2
  have "request_research env_silent ''b'' ?d world0 = (Inr ''Research limit reached'', ?d, world0)"
    by blast
  with c m show ?thesis by simp
qed

section \<open>The observation filter\<close>

text \<open>
  Claim C4. The list comprehension of \<^verbatim>\<open>Debator._observe\<close> keeps a message exactly when
  the name of the viewer is a member of its \<^verbatim>\<open>send_to\<close> set: the second disjunct, which
  compares the set with the singleton of the viewer, never changes the result.
\<close>

theorem observe_filter_is_membership:
  "observe_filter self_name ms = filter (\<lambda>m. self_name \<in> send_to m) ms
   \<and> (m \<in> set (observe_filter self_name ms) \<longleftrightarrow> m \<in> set ms \<and> self_name \<in> send_to m)
   \<and> news (snd (Debator_observe d)) = filter (\<lambda>m. name d \<in> send_to m) (news (Role_observe d))"
proof -
  have "observe_filter v xs = filter (\<lambda>m. v \<in> send_to m) xs" for v xs
    unfolding observe_filter_def by (rule filter_cong) auto
  then show ?thesis by (auto simp: Debator_observe_def)
qed

section \<open>The investment parameter\<close>

text \<open>
  Claim C9. Two runs of \<^verbatim>\<open>debate\<close> (and of \<^verbatim>\<open>main\<close>) that differ only in the value of
  \<^verbatim>\<open>investment\<close> give the same result, the same messages and the same calls and prompts.
\<close>

theorem investment_has_no_effect:
  "debate env idea investment1 n_round = debate env idea investment2 n_round
   \<and> main env idea investment1 n_round = main env idea investment2 n_round"
  by (simp add: debate_def main_def)

section \<open>The phase instruction\<close>



















section \<open>The session loop\<close>

lemma in_watch: "cb \<in> watch"
  by (cases cb) (simp_all add: watch_def)

lemma observe_filter_eq: "observe_filter v xs = filter (\<lambda>m. v \<in> send_to m) xs"
  unfolding observe_filter_def by (rule filter_cong) auto

lemma Debator_observe_news:
  assumes "msg_buffer d = []" "name d \<in> send_to m" "m \<notin> set (memory d)"
  shows "Debator_observe (d\<lparr>msg_buffer := msg_buffer d @ [m]\<rparr>) = (1, observed m d)"
  using assms
  by (simp add: Debator_observe_def Role_observe_def observe_filter_eq in_watch memory_add_def observed_def)

lemma Debator_observe_nothing:
  assumes "msg_buffer d = []" "\<not> (name d \<in> send_to m \<and> m \<notin> set (memory d))"
  shows "fst (Debator_observe (d\<lparr>msg_buffer := msg_buffer d @ [m]\<rparr>)) = 0"
  using assms
  by (auto simp add: Debator_observe_def Role_observe_def observe_filter_eq in_watch)

lemma Debator_act_eq:
  "Debator_act f env d w =
     (case aask env (length (prompts w)) (SpeakAloud_prompt f (act_args d)) of
        None \<Rightarrow> (Inl GenerationFailure, d, spoken f d w)
      | Some c \<Rightarrow>
          (Inr (response_to d c w),
           d\<lparr>memory := memory_add (response_to d c w) (memory d)\<rparr>,
           (spoken f d w)\<lparr>next_id := next_id w + 1\<rparr>))"
  by (simp add: Debator_act_def SpeakAloud_run_def aask_call_def log_call_def Message_def
      response_to_def spoken_def split: option.splits)

lemma observed_simps:
  "name (observed m d) = name d" "profile (observed m d) = profile d"
  "opponent_name1 (observed m d) = opponent_name1 d" "opponent_name2 (observed m d) = opponent_name2 d"
  "research_info (observed m d) = research_info d" "research_count (observed m d) = research_count d"
  "max_research (observed m d) = max_research d" "memory (observed m d) = memory d @ [m]"
  "msg_buffer (observed m d) = []" "latest_observed_msg (observed m d) = Some m"
  by (simp_all add: observed_def)

lemma response_to_observed: "response_to (observed m d) c w = response_to d c w"
  by (simp add: response_to_def observed_simps)

lemma Role_run_eq:
  assumes "msg_buffer d = []" "name d \<in> send_to m" "m \<notin> set (memory d)"
  shows "Role_run f env m d w =
     (case aask env (length (prompts w)) (SpeakAloud_prompt f (act_args (observed m d))) of
        None \<Rightarrow> (Inl GenerationFailure, (observed m d)\<lparr>memory := memory d\<rparr>, spoken f (observed m d) w)
      | Some c \<Rightarrow>
          (Inr (Some (response_to d c w)),
           (observed m d)\<lparr>memory := memory_add (response_to d c w) (memory d @ [m])\<rparr>,
           (spoken f (observed m d) w)\<lparr>next_id := next_id w + 1\<rparr>))"
  using assms(3)
  by (simp add: Role_run_def Debator_observe_news[OF assms] Debator_act_eq role_raise_def
      observed_simps response_to_observed remove1_append split: option.splits)

lemma Role_run_no_news:
  assumes "msg_buffer d = []" "\<not> (name d \<in> send_to m \<and> m \<notin> set (memory d))"
  shows "fst (Role_run f env m d w) = Inr None \<and> snd (snd (Role_run f env m d w)) = w"
  using Debator_observe_nothing[OF assms]
  by (auto simp add: Role_run_def split: prod.splits)

lemma rounds_success:
  "Role_run f env (msg s) (current_speaker s) w = (Inr (Some response), d, w1) \<Longrightarrow>
   rounds f env (rn # rest) s w = rounds f env rest (advance f rn s d response) w1"
  by (simp add: advance_def)

lemma rounds_failure:
  "Role_run f env (msg s) (current_speaker s) w = (Inl e, d, w1) \<Longrightarrow>
   rounds f env (rn # rest) s w = (Some e, s\<lparr>current_speaker := d\<rparr>, w1)"
  by simp

lemma advance_simps:
  "current_speaker (advance f rn s d r) = third_speaker s"
  "second_speaker (advance f rn s d r) = d"
  "third_speaker (advance f rn s d r) = second_speaker s"
  "msg (advance f rn s d r) = r"
  "all_messages (advance f rn s d r) = all_messages s @ [r]"
  by (simp_all add: advance_def)

lemma acted_simps:
  "name (acted m r d) = name d" "opponent_name1 (acted m r d) = opponent_name1 d"
  "opponent_name2 (acted m r d) = opponent_name2 d" "msg_buffer (acted m r d) = []"
  "memory (acted m r d) = memory d @ [m, r]" "profile (acted m r d) = profile d"
  by (simp_all add: acted_def observed_def)

lemma round_step:
  assumes inv: "session_inv s w"
  shows "Role_run f env (msg s) (current_speaker s) w =
     (case aask env (length (prompts w))
             (SpeakAloud_prompt f (act_args (observed (msg s) (current_speaker s)))) of
        None \<Rightarrow> (Inl GenerationFailure, (observed (msg s) (current_speaker s))\<lparr>memory := memory (current_speaker s)\<rparr>,
                 spoken f (observed (msg s) (current_speaker s)) w)
      | Some c \<Rightarrow>
          (Inr (Some (response_to (current_speaker s) c w)),
           acted (msg s) (response_to (current_speaker s) c w) (current_speaker s),
           (spoken f (observed (msg s) (current_speaker s)) w)\<lparr>next_id := next_id w + 1\<rparr>))"
proof -
  let ?d = "current_speaker s" and ?m = "msg s"
  from inv have b: "msg_buffer ?d = []" and o: "name ?d \<in> send_to ?m" and n: "?m \<notin> set (memory ?d)"
    and ids: "\<forall>x \<in> set (memory ?d). msg_id x < next_id w" and idm: "msg_id ?m < next_id w"
    by (simp_all add: session_inv_def)
  have fresh: "response_to ?d c w \<notin> set (memory ?d @ [?m])" for c
  proof
    assume "response_to ?d c w \<in> set (memory ?d @ [?m])"
    then have "msg_id (response_to ?d c w) < next_id w" using ids idm by auto
    then show False by (simp add: response_to_def)
  qed
  have "memory_add (response_to ?d c w) (memory ?d @ [?m]) = memory ?d @ [?m, response_to ?d c w]" for c
    using fresh[of c] by (simp add: memory_add_def)
  then show ?thesis
    by (simp add: Role_run_eq[OF b o n] acted_def split: option.splits)
qed

lemma advance_inv:
  assumes inv: "session_inv s w"
  shows "session_inv (advance f rn s (acted (msg s) (response_to (current_speaker s) c w) (current_speaker s))
            (response_to (current_speaker s) c w))
          ((spoken f (observed (msg s) (current_speaker s)) w)\<lparr>next_id := next_id w + 1\<rparr>)"
proof -
  have w: "next_id ((spoken f d w)\<lparr>next_id := next_id w + 1\<rparr>) = next_id w + 1" for d
    by simp
  have r: "msg_id (response_to d c w) = next_id w" "send_to (response_to d c w) = {opponent_name1 d, opponent_name2 d}" for d
    by (simp_all add: response_to_def)
  from inv have mt: "\<forall>m \<in> set (memory (third_speaker s)). msg_id m < next_id w"
    by (simp add: session_inv_def)
  have nt: "response_to (current_speaker s) c w \<notin> set (memory (third_speaker s))"
  proof
    assume "response_to (current_speaker s) c w \<in> set (memory (third_speaker s))"
    with mt have "msg_id (response_to (current_speaker s) c w) < next_id w" by blast
    then show False by (simp add: r)
  qed
  show ?thesis
    using inv nt
    unfolding session_inv_def advance_simps acted_simps w
    by (simp add: less_Suc_eq r)
qed

lemma rounds_Cons_inv:
  assumes "session_inv s w"
  shows "rounds f env (rn # rest) s w =
     (case aask env (length (prompts w)) (turn_prompt f s) of
        None \<Rightarrow>
          (Some GenerationFailure,
           s\<lparr>current_speaker := (observed (msg s) (current_speaker s))\<lparr>memory := memory (current_speaker s)\<rparr>\<rparr>,
           spoken f (observed (msg s) (current_speaker s)) w)
      | Some c \<Rightarrow> rounds f env rest (next_state f rn c s w) (next_world f s w))"
  by (simp add: round_step[OF assms] turn_prompt_def next_state_def next_world_def turn_response_def
      advance_def split: option.splits)

lemma next_inv: "session_inv s w \<Longrightarrow> session_inv (next_state f rn c s w) (next_world f s w)"
  unfolding next_state_def next_world_def turn_response_def by (rule advance_inv)

lemma speaker_of_next: "speaker_of (next_state f rn c s w) i = speaker_of s (Suc i)"
proof -
  have "i mod 3 = 0 \<or> i mod 3 = 1 \<or> i mod 3 = 2" by arith
  then show ?thesis
    by (auto simp add: speaker_of_def next_state_def advance_simps acted_simps mod_Suc)
qed

lemma next_state_simps:
  "all_messages (next_state f rn c s w) = all_messages s @ [turn_response c s w]"
  "debate_log (next_state StreamlitPy rn c s w) = debate_log s @ [log_of rn (turn_response c s w)]"
  "debate_log (next_state MainPy rn c s w) = debate_log s"
  "sent_from (turn_response c s w) = name (current_speaker s)"
  "content (turn_response c s w) = c"
  by (simp_all add: next_state_def advance_def turn_response_def response_to_def log_of_def acted_simps)

lemma next_world_simps:
  "calls (next_world f s w) = calls w @ [Call_SpeakAloud (act_args (observed (msg s) (current_speaker s)))]"
  "prompts (next_world f s w) = prompts w @ [turn_prompt f s]"
  by (simp_all add: next_world_def spoken_def turn_prompt_def)

lemma speaker_of_0: "speaker_of s 0 = name (current_speaker s)"
  by (simp add: speaker_of_def)

lemma map_speaker_shift:
  "name (current_speaker s) # map (speaker_of (next_state f rn c s w)) [0..<n] = map (speaker_of s) [0..<Suc n]"
proof -
  have "map (speaker_of (next_state f rn c s w)) [0..<n] = map (speaker_of s) (map Suc [0..<n])"
    by (simp add: speaker_of_next)
  also have "map Suc [0..<n] = [Suc 0..<Suc n]" by (rule map_Suc_upt)
  finally show ?thesis by (simp add: upt_conv_Cons speaker_of_0 del: upt_Suc)
qed

lemma rounds_shape:
  assumes "session_inv s w" and "rounds f env rs s w = (r, s', w')"
  shows "\<exists>new cs ps. all_messages s' = all_messages s @ new
      \<and> calls w' = calls w @ cs \<and> prompts w' = prompts w @ ps
      \<and> map sent_from new = map (speaker_of s) [0..<length new]
      \<and> list_all is_speak cs \<and> length ps = length cs
      \<and> (r = None \<longrightarrow> length new = length rs \<and> length cs = length rs \<and> session_inv s' w')
      \<and> (r \<noteq> None \<longrightarrow> r = Some GenerationFailure \<and> length new < length rs \<and> length cs = Suc (length new))
      \<and> debate_log s' = debate_log s @
           (case f of MainPy \<Rightarrow> [] | StreamlitPy \<Rightarrow> map2 log_of (take (length new) rs) new)"
  using assms
proof (induction rs arbitrary: s w)
  case Nil
  then show ?case by (cases f) auto
next
  case (Cons rn rest)
  note eq = rounds_Cons_inv[OF Cons.prems(1), of f env rn rest]
  show ?case
  proof (cases "aask env (length (prompts w)) (turn_prompt f s)")
    case None
    with eq Cons.prems(2) have r: "r = Some GenerationFailure"
      and s': "s' = s\<lparr>current_speaker := (observed (msg s) (current_speaker s))\<lparr>memory := memory (current_speaker s)\<rparr>\<rparr>"
      and w': "w' = spoken f (observed (msg s) (current_speaker s)) w"
      by simp_all
    show ?thesis
      apply (rule exI[of _ "[]"])
      apply (rule exI[of _ "[Call_SpeakAloud (act_args (observed (msg s) (current_speaker s)))]"])
      apply (rule exI[of _ "[turn_prompt f s]"])
      apply (cases f)
       apply (simp_all add: r s' w' spoken_def turn_prompt_def)
      done
  next
    case (Some c)
    let ?s1 = "next_state f rn c s w" and ?w1 = "next_world f s w"
    from eq Some Cons.prems(2) have run: "rounds f env rest ?s1 ?w1 = (r, s', w')" by simp
    from Cons.IH[OF next_inv[OF Cons.prems(1)] run]
    obtain new cs ps where
      m: "all_messages s' = all_messages ?s1 @ new" and
      c: "calls w' = calls ?w1 @ cs" and p: "prompts w' = prompts ?w1 @ ps" and
      sd: "map sent_from new = map (speaker_of ?s1) [0..<length new]" and
      sp: "list_all is_speak cs" and l: "length ps = length cs" and
      ok: "r = None \<longrightarrow> length new = length rest \<and> length cs = length rest \<and> session_inv s' w'" and
      ko: "r \<noteq> None \<longrightarrow> r = Some GenerationFailure \<and> length new < length rest \<and> length cs = Suc (length new)" and
      lg: "debate_log s' = debate_log ?s1 @
             (case f of MainPy \<Rightarrow> [] | StreamlitPy \<Rightarrow> map2 log_of (take (length new) rest) new)"
      by blast
    let ?rsp = "turn_response c s w"
    have senders: "map sent_from (?rsp # new) = map (speaker_of s) [0..<length (?rsp # new)]"
      using map_speaker_shift[of s f rn c w "length new"] sd
      by (simp add: next_state_simps del: upt_Suc)
    have log: "debate_log s' = debate_log s @
           (case f of MainPy \<Rightarrow> [] | StreamlitPy \<Rightarrow> map2 log_of (take (length (?rsp # new)) (rn # rest)) (?rsp # new))"
      using lg by (cases f) (simp_all add: next_state_simps)
    show ?thesis
      apply (rule exI[of _ "?rsp # new"])
      apply (rule exI[of _ "Call_SpeakAloud (act_args (observed (msg s) (current_speaker s))) # cs"])
      apply (rule exI[of _ "turn_prompt f s # ps"])
      apply (intro conjI)
      subgoal using m by (simp add: next_state_simps)
      subgoal using c by (simp add: next_world_simps)
      subgoal using p by (simp add: next_world_simps)
      subgoal by (rule senders)
      subgoal using sp by simp
      subgoal using l by simp
      subgoal using ok by simp
      subgoal using ko by simp
      subgoal by (rule log)
      done
  qed
qed

lemma request_research_shape:
  assumes "request_research env t d w = (r, d1, w1)"
  shows "same_identity d d1 \<and> next_id w1 = next_id w
       \<and> (\<exists>cs. calls w1 = calls w @ cs \<and> list_all is_research cs)"
  using assms
  by (auto simp add: request_research_def RequestResearch_run_def aask_call_def log_call_def
      research_topic_def same_identity_def
      split: if_splits option.splits sum.splits)

lemma research_phase_shape:
  assumes "research_phase env idea ds w = (Inr (ds', rl), w')"
  shows "list_all2 same_identity ds ds' \<and> next_id w' = next_id w
       \<and> (\<exists>cs. calls w' = calls w @ cs \<and> list_all is_research cs)"
  using assms
proof (induction ds arbitrary: w ds' rl w')
  case Nil
  then show ?case by simp
next
  case (Cons d ds)
  obtain r d1 w1 where rr: "request_research env idea d w = (r, d1, w1)"
    by (cases "request_research env idea d w") auto
  from Cons.prems rr obtain res where r: "r = Inr res" by (cases r) auto
  obtain q w2 where rp: "research_phase env idea ds w1 = (q, w2)"
    by (cases "research_phase env idea ds w1") auto
  from Cons.prems rr r rp obtain ds2 rl2 where q: "q = Inr (ds2, rl2)" by (cases q) auto
  from Cons.prems rr r rp q have e: "ds' = d1 # ds2" "w' = w2" by simp_all
  from Cons.IH[OF rp[unfolded q]] obtain cs2 where
    i: "list_all2 same_identity ds ds2" "next_id w2 = next_id w1" "calls w2 = calls w1 @ cs2" "list_all is_research cs2"
    by blast
  from request_research_shape[OF rr] obtain cs1 where
    j: "same_identity d d1" "next_id w1 = next_id w" "calls w1 = calls w @ cs1" "list_all is_research cs1"
    by blast
  have k: "calls w' = calls w @ (cs1 @ cs2) \<and> list_all is_research (cs1 @ cs2)"
    using i j e by simp
  have "list_all2 same_identity (d # ds) ds' \<and> next_id w' = next_id w"
    using i j e by simp
  with k show ?case by blast
qed

lemma same_identity_Debator:
  assumes "same_identity (Debator n p o1 o2) d"
  shows "name d = n" "profile d = p" "opponent_name1 d = o1" "opponent_name2 d = o2"
        "memory d = []" "msg_buffer d = []"
proof -
  from assms have e: "d = (Debator n p o1 o2)\<lparr>research_info := research_info d, research_count := research_count d\<rparr>"
    by (simp add: same_identity_def)
  show "name d = n" "profile d = p" "opponent_name1 d = o1" "opponent_name2 d = o2"
        "memory d = []" "msg_buffer d = []"
    by (subst e, simp add: Debator_def)+
qed

lemma start_session_shape:
  assumes "start_session env idea w = (Inr (s0, rl), w0)"
  shows "session_inv s0 w0 \<and> name (current_speaker s0) = ''Principal''
       \<and> name (second_speaker s0) = ''John'' \<and> name (third_speaker s0) = ''Mom''
       \<and> all_messages s0 = [] \<and> debate_log s0 = [] \<and> msg s0 = seed idea (next_id w)
       \<and> memory (current_speaker s0) = []
       \<and> memory (second_speaker s0) = [] \<and> memory (third_speaker s0) = []
       \<and> (\<exists>cs. calls w0 = calls w @ cs \<and> list_all is_research cs)"
proof -
  let ?ds = "[Debator ''Principal'' ''School'' ''John'' ''Mom'',
              Debator ''John'' ''Student'' ''Mom'' ''Principal'',
              Debator ''Mom'' ''Parent'' ''Principal'' ''John'']"
  obtain q w1 where rp: "research_phase env idea ?ds w = (q, w1)"
    by (cases "research_phase env idea ?ds w") auto
  from assms rp obtain ds' rl' where q: "q = Inr (ds', rl')"
    by (cases q) (auto simp add: start_session_def)
  from research_phase_shape[OF rp[unfolded q]] obtain cs where
    i: "list_all2 same_identity ?ds ds'" "next_id w1 = next_id w" "calls w1 = calls w @ cs" "list_all is_research cs"
    by blast
  from i(1) obtain a b c where ds': "ds' = [a, b, c]"
    and a: "same_identity (Debator ''Principal'' ''School'' ''John'' ''Mom'') a"
    and b: "same_identity (Debator ''John'' ''Student'' ''Mom'' ''Principal'') b"
    and c: "same_identity (Debator ''Mom'' ''Parent'' ''Principal'' ''John'') c"
    by (auto simp add: list_all2_Cons1)
  from assms rp q ds' have s0: "s0 = \<lparr>current_speaker = a, second_speaker = b, third_speaker = c,
        msg = seed idea (next_id w1), all_messages = [], debate_log = []\<rparr>"
    and w0: "w0 = w1\<lparr>next_id := next_id w1 + 1\<rparr>"
    by (simp_all add: start_session_def Message_def seed_def)
  have inv: "session_inv s0 w0"
    unfolding session_inv_def s0 w0
    by (simp add: same_identity_Debator[OF a] same_identity_Debator[OF b] same_identity_Debator[OF c] seed_def)
  show ?thesis
    using inv i
    by (simp add: s0 w0 same_identity_Debator[OF a] same_identity_Debator[OF b] same_identity_Debator[OF c])
qed

lemma evaluate_eq:
  "evaluate env idea ms w =
     (case aask env (length (prompts w)) (EvaluateDebate_prompt idea (debate_content_of ms)) of
        None \<Rightarrow> Inl GenerationFailure | Some ev \<Rightarrow> Inr ev,
      w\<lparr>calls := calls w @ [Call_evaluate idea ms, Call_EvaluateDebate idea (debate_content_of ms)],
        prompts := prompts w @ [EvaluateDebate_prompt idea (debate_content_of ms)]\<rparr>)"
  by (simp add: evaluate_def EvaluateDebate_run_def aask_call_def log_call_def debate_content_of_def
      split: option.splits)

lemma advise_eq:
  "advise env idea ev w =
     (case aask env (length (prompts w)) (ProvideAdvice_prompt idea ev) of
        None \<Rightarrow> Inl GenerationFailure | Some adv \<Rightarrow> Inr adv,
      w\<lparr>calls := calls w @ [Call_advise idea ev, Call_ProvideAdvice idea ev],
        prompts := prompts w @ [ProvideAdvice_prompt idea ev]\<rparr>)"
  by (simp add: advise_def ProvideAdvice_run_def aask_call_def log_call_def split: option.splits)

lemma speaker_of_start:
  assumes "start_session env idea w = (Inr (s0, rl), w0)"
  shows "speaker_of s0 = rotation"
  using start_session_shape[OF assms] by (auto simp add: speaker_of_def rotation_def fun_eq_iff)

lemma session_rounds:
  assumes st: "start_session env idea world0 = (Inr (s0, rl), w0)"
    and rn: "rounds f env rs s0 w0 = (r, s, w)"
  shows "map sent_from (all_messages s) = map rotation [0..<length (all_messages s)]
       \<and> (\<exists>pre cs. calls w = pre @ cs \<and> list_all is_research pre \<and> list_all is_speak cs
             \<and> length cs = length (all_messages s) + (if r = None then 0 else 1))
       \<and> (r = None \<longrightarrow> length (all_messages s) = length rs \<and> session_inv s w)
       \<and> (r \<noteq> None \<longrightarrow> r = Some GenerationFailure \<and> length (all_messages s) < length rs)
       \<and> debate_log s =
           (case f of MainPy \<Rightarrow> []
            | StreamlitPy \<Rightarrow> map2 log_of (take (length (all_messages s)) rs) (all_messages s))"
proof -
  from start_session_shape[OF st] obtain pre where
    inv: "session_inv s0 w0" and e: "all_messages s0 = []" "debate_log s0 = []"
    and pre: "calls w0 = pre" "list_all is_research pre"
    by (auto simp add: world0_def)
  from rounds_shape[OF inv rn] obtain new cs ps where
    m: "all_messages s = all_messages s0 @ new" and
    c: "calls w = calls w0 @ cs" and
    sd: "map sent_from new = map (speaker_of s0) [0..<length new]" and
    sp: "list_all is_speak cs" and
    ok: "r = None \<longrightarrow> length new = length rs \<and> length cs = length rs \<and> session_inv s w" and
    ko: "r \<noteq> None \<longrightarrow> r = Some GenerationFailure \<and> length new < length rs \<and> length cs = Suc (length new)" and
    lg: "debate_log s = debate_log s0 @
           (case f of MainPy \<Rightarrow> [] | StreamlitPy \<Rightarrow> map2 log_of (take (length new) rs) new)"
    by blast
  have a: "all_messages s = new" using m e by simp
  have 1: "map sent_from (all_messages s) = map rotation [0..<length (all_messages s)]"
    using sd by (simp add: a speaker_of_start[OF st])
  have 2: "\<exists>pre cs. calls w = pre @ cs \<and> list_all is_research pre \<and> list_all is_speak cs
             \<and> length cs = length (all_messages s) + (if r = None then 0 else 1)"
    apply (rule exI[of _ pre], rule exI[of _ cs])
    using c pre sp ok ko by (auto simp add: a)
  have 3: "r = None \<longrightarrow> length (all_messages s) = length rs \<and> session_inv s w"
    using ok by (simp add: a)
  have 4: "r \<noteq> None \<longrightarrow> r = Some GenerationFailure \<and> length (all_messages s) < length rs"
    using ko by (simp add: a)
  have 5: "debate_log s =
           (case f of MainPy \<Rightarrow> []
            | StreamlitPy \<Rightarrow> map2 log_of (take (length (all_messages s)) rs) (all_messages s))"
    using lg e by (cases f) (simp_all add: a)
  from 1 2 3 4 5 show ?thesis by blast
qed

lemma rounds_append:
  "rounds f env (xs @ ys) s w =
     (case rounds f env xs s w of
        (None, s1, w1) \<Rightarrow> rounds f env ys s1 w1
      | (Some e, s1, w1) \<Rightarrow> (Some e, s1, w1))"
  by (induction xs arbitrary: s w) (auto split: prod.splits sum.splits option.splits)

lemma rounds_all_ok:
  assumes "session_inv s w"
    and "\<forall>i p. length (prompts w) \<le> i \<and> i < length (prompts w) + length rs \<longrightarrow> aask env i p \<noteq> None"
  shows "fst (rounds f env rs s w) = None"
  using assms
proof (induction rs arbitrary: s w)
  case Nil
  then show ?case by simp
next
  case (Cons rn rest)
  from Cons.prems(2) obtain c where c: "aask env (length (prompts w)) (turn_prompt f s) = Some c"
    by fastforce
  have "\<forall>i p. length (prompts (next_world f s w)) \<le> i
           \<and> i < length (prompts (next_world f s w)) + length rest \<longrightarrow> aask env i p \<noteq> None"
    using Cons.prems(2) by (simp add: next_world_simps)
  from Cons.IH[OF next_inv[OF Cons.prems(1)] this]
  show ?case by (subst rounds_Cons_inv[OF Cons.prems(1)]) (simp add: c)
qed

lemma no_aggregator: "list_all is_research pre \<Longrightarrow> list_all is_speak cs \<Longrightarrow>
    filter is_aggregator (pre @ cs) = [] \<and> filter is_speak (pre @ cs) = cs"
proof -
  have a: "is_research c \<Longrightarrow> \<not> is_aggregator c \<and> \<not> is_speak c" for c by (cases c) simp_all
  have b: "is_speak c \<Longrightarrow> \<not> is_aggregator c" for c by (cases c) simp_all
  assume "list_all is_research pre" "list_all is_speak cs"
  then show ?thesis using a b by (auto simp add: list_all_iff filter_empty_conv filter_id_conv)
qed

lemma browse_loop_error: "browse_loop env links acc n = Inl e \<Longrightarrow> e = EvidenceFailure"
  by (induction env links acc n rule: browse_loop.induct) (auto split: if_splits option.splits)

lemma request_research_error:
  "request_research env t d w = (Inl e, d1, w1) \<Longrightarrow> e \<noteq> NoResponse"
  by (auto simp add: request_research_def RequestResearch_run_def aask_call_def research_topic_def
      split: if_splits option.splits sum.splits prod.splits dest: browse_loop_error)

lemma research_phase_error:
  "research_phase env idea ds w = (Inl e, w1) \<Longrightarrow> e \<noteq> NoResponse"
proof (induction ds arbitrary: w w1)
  case Nil
  then show ?case by simp
next
  case (Cons d ds)
  then show ?case
    by (auto split: prod.splits sum.splits dest: request_research_error)
qed

lemma start_session_error:
  "start_session env idea w = (Inl e, w1) \<Longrightarrow> e \<noteq> NoResponse"
  by (auto simp add: start_session_def Message_def simp del: research_phase.simps
      split: prod.splits sum.splits dest: research_phase_error)

lemma debate_messages:
  "map sent_from (fst (snd (debate env idea investment n_round)))
     = map rotation [0..<length (fst (snd (debate env idea investment n_round)))]
   \<and> fst (debate env idea investment n_round) \<noteq> Inl NoResponse
   \<and> (\<forall>ev. fst (debate env idea investment n_round) = Inr ev \<longrightarrow>
         length (fst (snd (debate env idea investment n_round))) = nat n_round)"
proof (cases "start_session env idea world0")
  case (Pair q w0)
  show ?thesis
  proof (cases q)
    case (Inl e)
    from Pair Inl have "e \<noteq> NoResponse" by (auto dest: start_session_error)
    with Pair Inl show ?thesis by (simp add: debate_def)
  next
    case (Inr x)
    then obtain s0 rl where q: "q = Inr (s0, rl)" by (cases x) auto
    obtain r s w where rn: "rounds MainPy env [0..<nat n_round] s0 w0 = (r, s, w)"
      by (cases "rounds MainPy env [0..<nat n_round] s0 w0") auto
    note sh = session_rounds[OF Pair[unfolded q] rn]
    show ?thesis
    proof (cases r)
      case None
      with sh Pair q rn show ?thesis
        by (auto simp add: debate_def evaluate_eq split: option.splits)
    next
      case (Some e)
      with sh Pair q rn show ?thesis
        by (auto simp add: debate_def)
    qed
  qed
qed

lemma run_debate_messages:
  "map sent_from (fst (snd (run_debate env idea n_round)))
     = map rotation [0..<length (fst (snd (run_debate env idea n_round)))]
   \<and> fst (run_debate env idea n_round) \<noteq> Inl NoResponse"
proof (cases "start_session env idea world0")
  case (Pair q w0)
  show ?thesis
  proof (cases q)
    case (Inl e)
    from Pair Inl have "e \<noteq> NoResponse" by (auto dest: start_session_error)
    with Pair Inl show ?thesis by (simp add: run_debate_def)
  next
    case (Inr x)
    then obtain s0 rl where q: "q = Inr (s0, rl)" by (cases x) auto
    obtain r s w where rn: "rounds StreamlitPy env [0..<nat n_round] s0 w0 = (r, s, w)"
      by (cases "rounds StreamlitPy env [0..<nat n_round] s0 w0") auto
    note sh = session_rounds[OF Pair[unfolded q] rn]
    show ?thesis
    proof (cases r)
      case None
      with sh Pair q rn show ?thesis
        by (auto simp add: run_debate_def evaluate_eq advise_eq split: option.splits)
    next
      case (Some e)
      with sh Pair q rn show ?thesis
        by (auto simp add: run_debate_def)
    qed
  qed
qed

lemma run_debate_success:
  assumes "run_debate env idea n_round = (Inr (dlog, ev, rl, adv), msgs, w)"
  shows "\<exists>s0 w0 s w1.
      start_session env idea world0 = (Inr (s0, rl), w0)
    \<and> rounds StreamlitPy env [0..<nat n_round] s0 w0 = (None, s, w1)
    \<and> msgs = all_messages s \<and> dlog = debate_log s
    \<and> aask env (length (prompts w1)) (EvaluateDebate_prompt idea (debate_content_of msgs)) = Some ev
    \<and> aask env (Suc (length (prompts w1))) (ProvideAdvice_prompt idea ev) = Some adv
    \<and> calls w = calls w1 @ [Call_evaluate idea msgs, Call_EvaluateDebate idea (debate_content_of msgs),
                             Call_advise idea ev, Call_ProvideAdvice idea ev]
    \<and> prompts w = prompts w1 @ [EvaluateDebate_prompt idea (debate_content_of msgs),
                                 ProvideAdvice_prompt idea ev]"
proof (cases "start_session env idea world0")
  case (Pair q w0)
  show ?thesis
  proof (cases q)
    case (Inl e)
    with Pair assms show ?thesis by (simp add: run_debate_def)
  next
    case (Inr x)
    then obtain s0 rl' where q: "q = Inr (s0, rl')" by (cases x) auto
    obtain r s w1 where rn: "rounds StreamlitPy env [0..<nat n_round] s0 w0 = (r, s, w1)"
      by (cases "rounds StreamlitPy env [0..<nat n_round] s0 w0") auto
    show ?thesis
    proof (cases r)
      case (Some e)
      with Pair q rn assms show ?thesis by (simp add: run_debate_def)
    next
      case None
      with Pair q rn assms show ?thesis
        by (auto simp add: run_debate_def evaluate_eq advise_eq split: option.splits)
    qed
  qed
qed

lemma map2_log_of:
  assumes "length xs = length ms"
  shows "map log_round (map2 log_of xs ms) = map (\<lambda>i. int i + 1) xs"
    and "map log_speaker (map2 log_of xs ms) = map sent_from ms"
    and "map log_content (map2 log_of xs ms) = map content ms"
  using assms
  by (induction xs ms rule: list_induct2) (simp_all add: log_of_def)

lemma rotation_cycle:
  "rotation 0 = ''Principal'' \<and> rotation 1 = ''Mom'' \<and> rotation 2 = ''John''
   \<and> rotation (i + 3) = rotation i"
  by (simp add: rotation_def)

lemma rotation_next:
  "(rotation i = ''Principal'' \<longrightarrow> rotation (Suc i) = ''Mom'')
   \<and> (rotation i = ''Mom'' \<longrightarrow> rotation (Suc i) = ''John'')
   \<and> (rotation i = ''John'' \<longrightarrow> rotation (Suc i) = ''Principal'')"
proof -
  have "i mod 3 = 0 \<or> i mod 3 = 1 \<or> i mod 3 = 2" by arith
  then show ?thesis by (auto simp add: rotation_def mod_Suc)
qed

text \<open>
  Claim C1. In \<^verbatim>\<open>debate\<close> and in \<^verbatim>\<open>run_debate\<close> the sender of the message of round \<open>i\<close>
  (counted from 0) is \<open>rotation i\<close>, the \<open>(i mod 3)\<close>-th agent of the cycle Principal, Mom,
  John, whether the run ends well or with an exception; a run that ends well has produced
  \<open>n_round\<close> messages, and the speakers of the debate log follow the same cycle. The cycle
  starts with Principal, has period 3, and after Principal comes Mom, after Mom comes John,
  after John comes Principal.
\<close>

theorem speakers_follow_fixed_rotation:
  "map sent_from (fst (snd (debate env idea investment n_round)))
     = map rotation [0..<length (fst (snd (debate env idea investment n_round)))]
   \<and> map sent_from (fst (snd (run_debate env idea n_round)))
     = map rotation [0..<length (fst (snd (run_debate env idea n_round)))]
   \<and> (fst (debate env idea investment n_round) = Inr ev \<longrightarrow>
        length (fst (snd (debate env idea investment n_round))) = nat n_round)
   \<and> (run_debate env idea n_round = (Inr (dlog, ev', rl, adv), msgs, w) \<longrightarrow>
        length msgs = nat n_round \<and> map log_speaker dlog = map rotation [0..<nat n_round])
   \<and> rotation 0 = ''Principal'' \<and> rotation 1 = ''Mom'' \<and> rotation 2 = ''John''
   \<and> rotation (i + 3) = rotation i
   \<and> (rotation i = ''Principal'' \<longrightarrow> rotation (Suc i) = ''Mom'')
   \<and> (rotation i = ''Mom'' \<longrightarrow> rotation (Suc i) = ''John'')
   \<and> (rotation i = ''John'' \<longrightarrow> rotation (Suc i) = ''Principal'')"
proof -
  have d: "run_debate env idea n_round = (Inr (dlog, ev', rl, adv), msgs, w) \<longrightarrow>
        length msgs = nat n_round \<and> map log_speaker dlog = map rotation [0..<nat n_round]"
  proof
    assume a: "run_debate env idea n_round = (Inr (dlog, ev', rl, adv), msgs, w)"
    from run_debate_success[OF a] obtain s0 w0 s w1 where
      st: "start_session env idea world0 = (Inr (s0, rl), w0)" and
      rn: "rounds StreamlitPy env [0..<nat n_round] s0 w0 = (None, s, w1)" and
      m: "msgs = all_messages s" and l: "dlog = debate_log s"
      by blast
    from session_rounds[OF st rn] have
      len: "length (all_messages s) = nat n_round" and
      sd: "map sent_from (all_messages s) = map rotation [0..<length (all_messages s)]" and
      lg: "debate_log s = map2 log_of (take (length (all_messages s)) [0..<nat n_round]) (all_messages s)"
      by simp_all
    from lg len have "debate_log s = map2 log_of [0..<nat n_round] (all_messages s)" by simp
    then have "map log_speaker (debate_log s) = map sent_from (all_messages s)"
      using map2_log_of(2)[of "[0..<nat n_round]" "all_messages s"] len by simp
    with sd len m l show "length msgs = nat n_round \<and> map log_speaker dlog = map rotation [0..<nat n_round]"
      by simp
  qed
  from debate_messages[of env idea investment n_round] run_debate_messages[of env idea n_round]
    d rotation_cycle[of i] rotation_next[of i]
  show ?thesis by simp
qed

lemma rounds_after:
  assumes "session_inv s w" and "rounds f env rs s w = (None, s', w')"
  shows "speaker_of s' i = speaker_of s (length rs + i)
       \<and> length (prompts w') = length (prompts w) + length rs
       \<and> (rs \<noteq> [] \<longrightarrow> msg s' = last (all_messages s'))"
  using assms
proof (induction rs arbitrary: s w)
  case Nil
  then show ?case by simp
next
  case (Cons rn rest)
  note eq = rounds_Cons_inv[OF Cons.prems(1), of f env rn rest]
  show ?case
  proof (cases "aask env (length (prompts w)) (turn_prompt f s)")
    case None
    with eq Cons.prems(2) show ?thesis by simp
  next
    case (Some c)
    let ?s1 = "next_state f rn c s w" and ?w1 = "next_world f s w"
    from eq Some Cons.prems(2) have run: "rounds f env rest ?s1 ?w1 = (None, s', w')" by simp
    note ih = Cons.IH[OF next_inv[OF Cons.prems(1)] run]
    have m: "msg s' = last (all_messages s')"
    proof (cases rest)
      case Nil
      with run have "s' = ?s1" by simp
      then show ?thesis by (simp add: next_state_def advance_simps)
    next
      case (Cons a list)
      with ih show ?thesis by simp
    qed
    from ih m show ?thesis by (simp add: speaker_of_next next_world_simps)
  qed
qed

text \<open>
  Claim C10. The initial message is addressed to Principal, the first speaker. After any
  number \<open>j\<close> of completed rounds the incoming message (the response of the previous
  speaker when \<open>j > 0\<close>) is addressed to the current speaker, which is \<open>rotation j\<close>; the
  observation of the current speaker yields exactly that message as its news, so its run
  never returns \<^verbatim>\<open>None\<close>, and no session ends by reading the content of a missing
  response.
\<close>

theorem incoming_message_always_observable:
  assumes "start_session env idea world0 = (Inr (s0, rl), w0)"
    and "rounds f env [0..<j] s0 w0 = (None, s, w)"
  shows "send_to (msg s0) = {''Principal''} \<and> name (current_speaker s0) = ''Principal''
       \<and> name (current_speaker s) = rotation j
       \<and> name (current_speaker s) \<in> send_to (msg s)
       \<and> (0 < j \<longrightarrow> msg s = last (all_messages s) \<and> sent_from (msg s) = rotation (j - 1))
       \<and> Debator_observe ((current_speaker s)\<lparr>msg_buffer := msg_buffer (current_speaker s) @ [msg s]\<rparr>)
            = (1, (current_speaker s)\<lparr>msg_buffer := [], memory := memory (current_speaker s) @ [msg s],
                    news := [msg s], latest_observed_msg := Some (msg s)\<rparr>)
       \<and> fst (Role_run f env (msg s) (current_speaker s) w) \<noteq> Inr None
       \<and> fst (debate env idea investment n_round) \<noteq> Inl NoResponse
       \<and> fst (run_debate env idea n_round) \<noteq> Inl NoResponse"
proof -
  note st = start_session_shape[OF assms(1)]
  from st have inv0: "session_inv s0 w0" by simp
  note sr = session_rounds[OF assms]
  from sr have inv: "session_inv s w" and len: "length (all_messages s) = j"
    and sd: "map sent_from (all_messages s) = map rotation [0..<length (all_messages s)]"
    by simp_all
  from inv have b: "msg_buffer (current_speaker s) = []" and o: "name (current_speaker s) \<in> send_to (msg s)"
    and n: "msg s \<notin> set (memory (current_speaker s))"
    by (simp_all add: session_inv_def)
  note ra = rounds_after[OF inv0 assms(2), of 0]
  have cur: "name (current_speaker s) = rotation j"
    using ra by (simp add: speaker_of_0[symmetric] speaker_of_start[OF assms(1)])
  have lastm: "0 < j \<longrightarrow> msg s = last (all_messages s) \<and> sent_from (msg s) = rotation (j - 1)"
  proof
    assume j: "0 < j"
    with ra have m: "msg s = last (all_messages s)" by simp
    from j len have ne: "all_messages s \<noteq> []" by auto
    have "sent_from (last (all_messages s)) = last (map sent_from (all_messages s))"
      using ne by (simp add: last_map)
    also have "\<dots> = last (map rotation [0..<j])" using sd len by simp
    also have "\<dots> = rotation (j - 1)" using j by (cases j) simp_all
    finally show "msg s = last (all_messages s) \<and> sent_from (msg s) = rotation (j - 1)"
      using m by simp
  qed
  have obs: "Debator_observe ((current_speaker s)\<lparr>msg_buffer := msg_buffer (current_speaker s) @ [msg s]\<rparr>)
            = (1, (current_speaker s)\<lparr>msg_buffer := [], memory := memory (current_speaker s) @ [msg s],
                    news := [msg s], latest_observed_msg := Some (msg s)\<rparr>)"
    using Debator_observe_news[OF b o n] by (simp add: observed_def)
  have run: "fst (Role_run f env (msg s) (current_speaker s) w) \<noteq> Inr None"
    by (simp add: round_step[OF inv] split: option.splits)
  from st have s0: "send_to (msg s0) = {''Principal''}" "name (current_speaker s0) = ''Principal''"
    by (simp_all add: seed_def)
  from s0 cur o lastm obs run debate_messages[of env idea investment n_round]
    run_debate_messages[of env idea n_round]
  show ?thesis by blast
qed

text \<open>
  Claim C5. When the rounds \<open>1 .. k - 1\<close> of a session of \<open>n_round\<close> rounds have completed
  and the content generator raises in round \<open>k\<close>, the session ends with that failure: the
  list of collected messages holds \<open>k - 1\<close> entries, neither the evaluator nor the advisor
  has been called, the generator has been called once in every round up to \<open>k\<close> (no round
  skipped), and round \<open>k\<close> sent one prompt only (no retry).
\<close>

theorem generation_failure_aborts_session:
  assumes "start_session env idea world0 = (Inr (s0, rl), w0)"
    and "1 \<le> k" and "k \<le> nat n_round"
    and "rounds f env [0..<k - 1] s0 w0 = (None, s, w)"
    and "Role_run f env (msg s) (current_speaker s) w = (Inl e, d, w1)"
  shows "e = GenerationFailure
       \<and> (f = MainPy \<longrightarrow>
            debate env idea investment n_round = (Inl GenerationFailure, all_messages s, w1))
       \<and> (f = StreamlitPy \<longrightarrow>
            run_debate env idea n_round = (Inl GenerationFailure, all_messages s, w1))
       \<and> length (all_messages s) = k - 1
       \<and> filter is_aggregator (calls w1) = []
       \<and> length (filter is_speak (calls w1)) = k
       \<and> (\<exists>a. calls w1 = calls w @ [Call_SpeakAloud a])
       \<and> (\<exists>p. prompts w1 = prompts w @ [p])"
proof -
  note sr = session_rounds[OF assms(1,4)]
  from sr have inv: "session_inv s w" and len: "length (all_messages s) = k - 1" by simp_all
  from sr obtain pre cs where c: "calls w = pre @ cs" "list_all is_research pre" "list_all is_speak cs"
    "length cs = k - 1"
    by auto
  from assms(5) have e: "e = GenerationFailure"
    and w1: "w1 = spoken f (observed (msg s) (current_speaker s)) w"
    by (simp_all add: round_step[OF inv] split: option.splits)
  let ?a = "act_args (observed (msg s) (current_speaker s))"
  have cw: "calls w1 = pre @ (cs @ [Call_SpeakAloud ?a])" by (simp add: w1 spoken_def c)
  have sp: "list_all is_speak (cs @ [Call_SpeakAloud ?a])" using c by simp
  from no_aggregator[OF c(2) sp] have na: "filter is_aggregator (calls w1) = []"
    and ns0: "filter is_speak (calls w1) = cs @ [Call_SpeakAloud ?a]"
    unfolding cw by blast+
  have ns: "length (filter is_speak (calls w1)) = k"
    unfolding ns0 using c(4) assms(2) by simp
  have split: "[0..<nat n_round] = [0..<k - 1] @ (k - 1) # [k..<nat n_round]"
  proof -
    have "[0..<nat n_round] = [0..<k - 1] @ [k - 1..<nat n_round]"
      using assms(2,3) upt_add_eq_append[of 0 "k - 1" "nat n_round - (k - 1)"] by simp
    moreover have "[k - 1..<nat n_round] = (k - 1) # [k..<nat n_round]"
      using assms(2,3) by (simp add: upt_conv_Cons)
    ultimately show ?thesis by simp
  qed
  have rn: "rounds f env [0..<nat n_round] s0 w0 = (Some e, s\<lparr>current_speaker := d\<rparr>, w1)"
    unfolding split rounds_append assms(4) using rounds_failure[OF assms(5)] by simp
  have main: "f = MainPy \<longrightarrow> debate env idea investment n_round = (Inl GenerationFailure, all_messages s, w1)"
    using rn assms(1) e by (auto simp add: debate_def)
  have st: "f = StreamlitPy \<longrightarrow> run_debate env idea n_round = (Inl GenerationFailure, all_messages s, w1)"
    using rn assms(1) e by (auto simp add: run_debate_def)
  have one: "\<exists>a. calls w1 = calls w @ [Call_SpeakAloud a]" "\<exists>p. prompts w1 = prompts w @ [p]"
    by (simp_all add: w1 spoken_def)
  from e main st len na ns one show ?thesis by blast
qed


lemma request_research_ok:
  assumes "research_count d < max_research d"
    and "a (length (prompts w)) (RequestResearch_prompt (name d) (profile d) t) = Some q"
  shows "\<exists>d' w'. request_research (env_with rep a) t d w = (Inr rep, d', w')
           \<and> length (prompts w') = Suc (length (prompts w))"
  using assms
  by (simp add: request_research_def RequestResearch_run_def aask_call_def log_call_def
      research_topic_def env_with_def)

lemma research_phase_ok:
  assumes "\<forall>d\<in>set ds. research_count d < max_research d"
    and "\<forall>i p. length (prompts w) \<le> i \<and> i < length (prompts w) + length ds \<longrightarrow> a i p \<noteq> None"
  shows "\<exists>ds' rl w'. research_phase (env_with rep a) idea ds w = (Inr (ds', rl), w')
           \<and> length (prompts w') = length (prompts w) + length ds"
  using assms
proof (induction ds arbitrary: w)
  case Nil
  then show ?case by simp
next
  case (Cons d ds)
  from Cons.prems(2) obtain q where q: "a (length (prompts w)) (RequestResearch_prompt (name d) (profile d) idea) = Some q"
    by fastforce
  from Cons.prems(1) have c: "research_count d < max_research d" by simp
  from request_research_ok[of d a w idea q rep, OF c q] obtain d' w1 where
    r: "request_research (env_with rep a) idea d w = (Inr rep, d', w1)"
    and l: "length (prompts w1) = Suc (length (prompts w))" by blast
  have "\<forall>i p. length (prompts w1) \<le> i \<and> i < length (prompts w1) + length ds \<longrightarrow> a i p \<noteq> None"
    using Cons.prems(2) l by simp
  from Cons.IH[OF _ this] Cons.prems(1) obtain ds' rl w' where
    p: "research_phase (env_with rep a) idea ds w1 = (Inr (ds', rl), w')"
    and l2: "length (prompts w') = length (prompts w1) + length ds" by auto
  show ?case using r p l l2 by simp
qed

lemma start_session_ok:
  assumes "\<forall>i p. i < 3 \<longrightarrow> a i p \<noteq> None"
  shows "\<exists>s0 rl w0. start_session (env_with rep a) idea world0 = (Inr (s0, rl), w0)
           \<and> length (prompts w0) = 3"
proof -
  let ?ds = "[Debator ''Principal'' ''School'' ''John'' ''Mom'',
              Debator ''John'' ''Student'' ''Mom'' ''Principal'',
              Debator ''Mom'' ''Parent'' ''Principal'' ''John'']"
  have 1: "\<forall>d\<in>set ?ds. research_count d < max_research d" by (simp add: Debator_def)
  have 2: "\<forall>i p. length (prompts world0) \<le> i \<and> i < length (prompts world0) + length ?ds \<longrightarrow> a i p \<noteq> None"
    using assms by (simp add: world0_def)
  from research_phase_ok[OF 1 2, of rep idea] obtain ds' rl w' where
    p: "research_phase (env_with rep a) idea ?ds world0 = (Inr (ds', rl), w')"
    and l: "length (prompts w') = 3" by (auto simp add: world0_def)
  show ?thesis
    unfolding start_session_def p by (simp add: Message_def l)
qed

lemma aask_env_with: "aask (env_with rep a) = a"
  by (simp add: env_with_def)

lemma run_debate_ok:
  assumes "\<forall>i p. a i p \<noteq> None"
  shows "\<exists>dlog ev rl adv msgs w. run_debate (env_with rep a) idea n_round = (Inr (dlog, ev, rl, adv), msgs, w)"
proof -
  from start_session_ok[of a rep idea] assms obtain s0 rl w0 where
    st: "start_session (env_with rep a) idea world0 = (Inr (s0, rl), w0)" by blast
  from start_session_shape[OF st] have inv: "session_inv s0 w0" by simp
  obtain r s w where rn: "rounds StreamlitPy (env_with rep a) [0..<nat n_round] s0 w0 = (r, s, w)"
    by (cases "rounds StreamlitPy (env_with rep a) [0..<nat n_round] s0 w0") auto
  from rounds_all_ok[OF inv, of "[0..<nat n_round]" "env_with rep a" StreamlitPy] assms rn
  have r: "r = None" by (simp add: aask_env_with)
  from assms obtain ev where
    e: "a (length (prompts w)) (EvaluateDebate_prompt idea (debate_content_of (all_messages s))) = Some ev"
    by fastforce
  from assms obtain adv where
    ad: "a (Suc (length (prompts w))) (ProvideAdvice_prompt idea ev) = Some adv"
    by fastforce
  show ?thesis
    by (simp add: run_debate_def st rn r evaluate_eq advise_eq aask_env_with e ad)
qed

lemma debate_ok:
  assumes "\<forall>i p. a i p \<noteq> None"
  shows "\<exists>ev. fst (debate (env_with rep a) idea investment n_round) = Inr ev"
proof -
  from start_session_ok[of a rep idea] assms obtain s0 rl w0 where
    st: "start_session (env_with rep a) idea world0 = (Inr (s0, rl), w0)" by blast
  from start_session_shape[OF st] have inv: "session_inv s0 w0" by simp
  obtain r s w where rn: "rounds MainPy (env_with rep a) [0..<nat n_round] s0 w0 = (r, s, w)"
    by (cases "rounds MainPy (env_with rep a) [0..<nat n_round] s0 w0") auto
  from rounds_all_ok[OF inv, of "[0..<nat n_round]" "env_with rep a" MainPy] assms rn
  have r: "r = None" by (simp add: aask_env_with)
  from assms obtain ev where
    e: "a (length (prompts w)) (EvaluateDebate_prompt idea (debate_content_of (all_messages s))) = Some ev"
    by fastforce
  show ?thesis
    by (simp add: debate_def st rn r evaluate_eq aask_env_with e)
qed

section \<open>Sessions with concrete collaborators\<close>

lemma always_ok: "\<forall>i p. (\<lambda>n p. Some ''ok'') i p \<noteq> None"
  by simp

lemma upt_6: "[0..<6] = [0, 1, 2, 3, 4, 5]"
  by (simp add: upt_rec)

theorem speakers_follow_fixed_rotation_witness:
  "(case run_debate (env_with ''report'' (\<lambda>n p. Some ''ok'')) ''Should schools ban smartphones?'' 6 of
      (Inl e, msgs, w) \<Rightarrow> False
    | (Inr (dlog, ev, rl, adv), msgs, w) \<Rightarrow>
        map sent_from msgs = [''Principal'', ''Mom'', ''John'', ''Principal'', ''Mom'', ''John'']
      \<and> map log_speaker dlog = [''Principal'', ''Mom'', ''John'', ''Principal'', ''Mom'', ''John''])
   \<and> length (fst (snd (debate (env_with ''report'' (\<lambda>n p. Some ''ok'')) ''Should schools ban smartphones?'' 0 6))) = 6
   \<and> rotation 3 = ''Principal'' \<and> rotation 4 = ''Mom''"
proof -
  let ?E = "env_with ''report'' (\<lambda>n p. Some ''ok'')" and ?T = "''Should schools ban smartphones?''"
  from run_debate_ok[OF always_ok, of "''report''" ?T 6] obtain dlog ev rl adv msgs w where
    r: "run_debate ?E ?T 6 = (Inr (dlog, ev, rl, adv), msgs, w)" by blast
  have rot: "map rotation [0..<6] = [''Principal'', ''Mom'', ''John'', ''Principal'', ''Mom'', ''John'']"
    by (simp add: upt_6 rotation_def)
  from debate_ok[OF always_ok, of "''report''" ?T 0 6] obtain ev0 where
    d: "fst (debate ?E ?T 0 6) = Inr ev0" by blast
  from speakers_follow_fixed_rotation[of ?E ?T 0 6 ev0 dlog ev rl adv msgs w 3] r d
  have "length msgs = 6" "map log_speaker dlog = map rotation [0..<6]"
    "map sent_from msgs = map rotation [0..<length msgs]"
    "length (fst (snd (debate ?E ?T 0 6))) = 6"
    "rotation 3 = ''Principal''" "rotation 4 = ''Mom''"
    by (simp_all add: rotation_def)
  with r rot show ?thesis by simp
qed

lemma fails_at_ok: "i \<noteq> k \<Longrightarrow> fails_at k i p \<noteq> None"
  by (simp add: fails_at_def)

theorem incoming_message_always_observable_witness:
  "(case start_session (env_with ''report'' (\<lambda>n p. Some ''ok'')) ''T'' world0 of
      (Inl e, w0) \<Rightarrow> False
    | (Inr (s0, rl), w0) \<Rightarrow>
        (case rounds StreamlitPy (env_with ''report'' (\<lambda>n p. Some ''ok'')) [0..<2] s0 w0 of
           (Some e, s, w) \<Rightarrow> False
         | (None, s, w) \<Rightarrow>
             name (current_speaker s) = ''John'' \<and> sent_from (msg s) = ''Mom''
           \<and> name (current_speaker s) \<in> send_to (msg s)
           \<and> fst (Role_run StreamlitPy (env_with ''report'' (\<lambda>n p. Some ''ok'')) (msg s) (current_speaker s) w) \<noteq> Inr None))"
proof -
  let ?E = "env_with ''report'' (\<lambda>n p. Some ''ok'')"
  from start_session_ok[of "\<lambda>n p. Some ''ok''" "''report''" "''T''"] obtain s0 rl w0 where
    st: "start_session ?E ''T'' world0 = (Inr (s0, rl), w0)" by auto
  from start_session_shape[OF st] have inv: "session_inv s0 w0" by simp
  obtain r s w where rn: "rounds StreamlitPy ?E [0..<2] s0 w0 = (r, s, w)"
    by (cases "rounds StreamlitPy ?E [0..<2] s0 w0") auto
  from rounds_all_ok[OF inv, of "[0..<2]" ?E StreamlitPy] rn have r: "r = None"
    by (simp add: aask_env_with)
  have pos: "0 < (2::nat)" "(2::nat) - 1 = 1" by simp_all
  from incoming_message_always_observable[OF st rn[unfolded r], of 0 0] pos
  have "name (current_speaker s) = rotation 2" "sent_from (msg s) = rotation 1"
    "name (current_speaker s) \<in> send_to (msg s)"
    "fst (Role_run StreamlitPy ?E (msg s) (current_speaker s) w) \<noteq> Inr None"
    by metis+
  then show ?thesis by (simp add: st rn r rotation_def)
qed

theorem generation_failure_aborts_session_witness:
  "fst (debate (env_with ''report'' (fails_at 5)) ''Should schools ban smartphones?'' 0 6) = Inl GenerationFailure
   \<and> length (fst (snd (debate (env_with ''report'' (fails_at 5)) ''Should schools ban smartphones?'' 0 6))) = 2
   \<and> filter is_aggregator
         (calls (snd (snd (debate (env_with ''report'' (fails_at 5)) ''Should schools ban smartphones?'' 0 6)))) = []
   \<and> length (filter is_speak
         (calls (snd (snd (debate (env_with ''report'' (fails_at 5)) ''Should schools ban smartphones?'' 0 6))))) = 3"
proof -
  let ?E = "env_with ''report'' (fails_at 5)" and ?T = "''Should schools ban smartphones?''"
  have "\<forall>i p. i < 3 \<longrightarrow> fails_at 5 i p \<noteq> None" by (simp add: fails_at_def)
  from start_session_ok[OF this, of "''report''" ?T] obtain s0 rl w0 where
    st: "start_session ?E ?T world0 = (Inr (s0, rl), w0)" and l0: "length (prompts w0) = 3" by auto
  from start_session_shape[OF st] have inv0: "session_inv s0 w0" by simp
  obtain r s w where rn: "rounds MainPy ?E [0..<3 - 1] s0 w0 = (r, s, w)"
    by (cases "rounds MainPy ?E [0..<3 - 1] s0 w0") auto
  have "\<forall>i p. length (prompts w0) \<le> i \<and> i < length (prompts w0) + length [0..<3 - 1::nat]
           \<longrightarrow> aask ?E i p \<noteq> None"
    by (simp add: l0 aask_env_with fails_at_def)
  from rounds_all_ok[OF inv0 this, of MainPy] rn have r: "r = None" by simp
  note rn = rn[unfolded r]
  from session_rounds[OF st rn] have inv: "session_inv s w" by simp
  from rounds_after[OF inv0 rn, of 0] l0 have l: "length (prompts w) = 5" by simp
  obtain q d w1 where rr: "Role_run MainPy ?E (msg s) (current_speaker s) w = (q, d, w1)"
    by (cases "Role_run MainPy ?E (msg s) (current_speaker s) w") auto
  from rr have q: "q = Inl GenerationFailure"
    by (simp add: round_step[OF inv] l aask_env_with fails_at_def)
  from generation_failure_aborts_session[OF st _ _ rn rr[unfolded q], of 6 0]
  show ?thesis by simp
qed


section \<open>Failures of the evidence provider\<close>






section \<open>The topic passed to the content generator\<close>

lemma speak_calls_append: "speak_calls (xs @ ys) = speak_calls xs @ speak_calls ys"
  by (induction xs rule: speak_calls.induct) simp_all

lemma speak_calls_research: "list_all is_research cs \<Longrightarrow> speak_calls cs = []"
  by (induction cs rule: speak_calls.induct) simp_all

lemma first_two_ideas:
  assumes st: "start_session env idea world0 = (Inr (s0, rl), w0)"
    and r1: "Role_run f env (msg s0) (current_speaker s0) w0 = (Inr (Some m0), d0, w1)"
    and r2: "Role_run f env m0 (third_speaker s0) w1 = (q, d1, w2)"
  shows "(\<exists>a0. calls w1 = calls w0 @ [Call_SpeakAloud a0] \<and> arg_name a0 = ''Principal'' \<and> arg_idea a0 = idea)
       \<and> (\<exists>a1. calls w2 = calls w1 @ [Call_SpeakAloud a1] \<and> arg_name a1 = ''Mom''
              \<and> arg_idea a1 = content m0)"
proof -
  note sh = start_session_shape[OF st]
  from sh have inv0: "session_inv s0 w0" by simp
  from sh have nm: "name (current_speaker s0) = ''Principal''" "name (third_speaker s0) = ''Mom''"
    and mem: "memory (current_speaker s0) = []" "memory (third_speaker s0) = []"
    and sd: "msg s0 = seed idea (next_id world0)" by simp_all
  let ?a0 = "act_args (observed (msg s0) (current_speaker s0))"
  from r1 obtain c0 where
    m0: "m0 = response_to (current_speaker s0) c0 w0" and
    d0: "d0 = acted (msg s0) m0 (current_speaker s0)" and
    w1: "w1 = (spoken f (observed (msg s0) (current_speaker s0)) w0)\<lparr>next_id := next_id w0 + 1\<rparr>"
    by (auto simp add: round_step[OF inv0] split: option.splits)
  have 1: "calls w1 = calls w0 @ [Call_SpeakAloud ?a0] \<and> arg_name ?a0 = ''Principal'' \<and> arg_idea ?a0 = idea"
    by (simp add: w1 spoken_def act_args_def observed_simps nm mem sd seed_def)
  let ?s1 = "advance f 0 s0 d0 m0"
  have inv1: "session_inv ?s1 w1" unfolding d0 m0 w1 by (rule advance_inv[OF inv0])
  have c1: "current_speaker ?s1 = third_speaker s0" "msg ?s1 = m0" by (simp_all add: advance_simps)
  let ?a1 = "act_args (observed m0 (third_speaker s0))"
  from r2 round_step[OF inv1, of f env] have "calls w2 = calls w1 @ [Call_SpeakAloud ?a1]"
    by (auto simp add: c1 spoken_def split: option.splits)
  moreover have "arg_name ?a1 = ''Mom'' \<and> arg_idea ?a1 = content m0"
    by (simp add: act_args_def observed_simps nm mem)
  ultimately show ?thesis using 1 by blast
qed

lemma upt_2: "[0..<nat 2] = [0, 1]"
  by (simp add: upt_rec)

text \<open>
  Claim C8 does not hold of the code. \<^verbatim>\<open>_act\<close> takes the topic from the first message of
  the agent's own memory. That is the initial message for Principal only: the memory of Mom
  starts with the reply of Principal. In a run of two rounds on the topic
  \<open>Should schools ban smartphones?\<close>, where the generator answers the first round with
  \<open>Phones distract pupils.\<close>, the call of \<^verbatim>\<open>SpeakAloud.run\<close> for Principal gets the topic as
  its \<^verbatim>\<open>idea\<close>, and the call for Mom gets the reply of Principal.
\<close>

theorem second_speaker_is_given_first_reply_as_topic:
  "(case run_debate (env_with ''report'' first_reply) ''Should schools ban smartphones?'' 2 of
      (Inl e, msgs, w) \<Rightarrow> False
    | (Inr x, msgs, w) \<Rightarrow>
        map arg_name (speak_calls (calls w)) = [''Principal'', ''Mom'']
      \<and> map arg_idea (speak_calls (calls w))
          = [''Should schools ban smartphones?'', ''Phones distract pupils.''])"
proof -
  let ?E = "env_with ''report'' first_reply" and ?T = "''Should schools ban smartphones?''"
  have ok: "\<forall>i p. first_reply i p \<noteq> None" by (simp add: first_reply_def)
  from run_debate_ok[OF ok, of "''report''" ?T 2] obtain dlog ev rl adv msgs w where
    r: "run_debate ?E ?T 2 = (Inr (dlog, ev, rl, adv), msgs, w)" by blast
  from run_debate_success[OF r] obtain s0 w0 s wr where
    st: "start_session ?E ?T world0 = (Inr (s0, rl), w0)" and
    rn: "rounds StreamlitPy ?E [0, 1] s0 w0 = (None, s, wr)" and
    cw: "calls w = calls wr @ [Call_evaluate ?T msgs, Call_EvaluateDebate ?T (debate_content_of msgs),
                             Call_advise ?T ev, Call_ProvideAdvice ?T ev]"
    unfolding upt_2 by blast
  from start_session_ok[of first_reply "''report''" ?T] ok st have l0: "length (prompts w0) = 3"
    by auto
  note sh = start_session_shape[OF st]
  from sh have inv0: "session_inv s0 w0" by simp
  from sh obtain pre where pre: "calls w0 = pre" "list_all is_research pre"
    by (auto simp add: world0_def)
  obtain q1 d0 w1 where r1: "Role_run StreamlitPy ?E (msg s0) (current_speaker s0) w0 = (q1, d0, w1)"
    by (cases "Role_run StreamlitPy ?E (msg s0) (current_speaker s0) w0") auto
  from r1 have q1: "q1 = Inr (Some (response_to (current_speaker s0) ''Phones distract pupils.'' w0))"
    by (simp add: round_step[OF inv0] l0 aask_env_with first_reply_def)
  let ?m0 = "response_to (current_speaker s0) ''Phones distract pupils.'' w0"
  note r1 = r1[unfolded q1]
  from rn rounds_success[OF r1, of 0 "[1]"] have rn1:
    "rounds StreamlitPy ?E [1] (advance StreamlitPy 0 s0 d0 ?m0) w1 = (None, s, wr)" by simp
  obtain q2 d1 w2 where r2: "Role_run StreamlitPy ?E ?m0 (third_speaker s0) w1 = (q2, d1, w2)"
    by (cases "Role_run StreamlitPy ?E ?m0 (third_speaker s0) w1") auto
  from rn1 r2 have wr: "wr = w2"
    by (auto simp add: advance_simps split: sum.splits option.splits)
  from first_two_ideas[OF st r1 r2] obtain a0 a1 where
    c1: "calls w1 = calls w0 @ [Call_SpeakAloud a0]" "arg_name a0 = ''Principal''" "arg_idea a0 = ?T" and
    c2: "calls w2 = calls w1 @ [Call_SpeakAloud a1]" "arg_name a1 = ''Mom''" "arg_idea a1 = content ?m0"
    by blast
  have "speak_calls (calls w) = [a0, a1]"
    by (simp add: cw wr c1 c2 pre speak_calls_append speak_calls_research[OF pre(2)])
  with c1 c2 r show ?thesis by (simp add: response_to_def)
qed

end
